theory Spec2Isabelle
  imports Main "HOL-Library.Sublist"
begin

section \<open>Values exchanged with the collaborators\<close>

text \<open>
  The agent passes JavaScript values around without inspecting them much: tool inputs, tool
  outputs and error values. Four shapes matter to the code:
  \<^item> \<open>JUndefined\<close>: \<^verbatim>\<open>undefined\<close>, and \<^verbatim>\<open>null\<close>, which the code cannot tell from it (both
    are falsy, neither is a string, and reading a property of either throws);
  \<^item> \<open>JStr s\<close>: a string whose text is known (\<^verbatim>\<open>typeof content === 'string'\<close>);
  \<^item> \<open>JObj kvs\<close>: a plain object with its own fields;
  \<^item> \<open>JEngineText\<close>: the message string of a TypeError that the JavaScript engine raised.
    Its text is the engine's and differs between engines, so the model gives it none.
\<close>

datatype Json = JUndefined | JStr string | JObj "(string \<times> Json) list" | JEngineText

text \<open>
  What a \<^verbatim>\<open>throw\<close> or a rejected promise carries. Any value can be thrown:
  \<^item> \<open>Error m\<close>: an \<^verbatim>\<open>Error\<close> object built with the message \<open>m\<close>;
  \<^item> \<open>TypeError\<close>: the error the engine raises when a property of \<^verbatim>\<open>undefined\<close> or
    \<^verbatim>\<open>null\<close> is read;
  \<^item> \<open>Value v\<close>: any other value (\<^verbatim>\<open>throw undefined\<close>, \<^verbatim>\<open>Promise.reject()\<close>, a thrown
    string or plain object).
\<close>

datatype Thrown = Error string | TypeError | Value Json

text \<open>JavaScript truthiness, as used by \<^verbatim>\<open>error ? "error" : "success"\<close>. The engines'
  TypeError messages are not the empty string.\<close>

fun truthy :: "Json \<Rightarrow> bool" where
  "truthy JUndefined = False"
| "truthy (JStr s) = (s \<noteq> [])"
| "truthy (JObj kvs) = True"
| "truthy JEngineText = True"

text \<open>
  The two property reads of the agent, \<^verbatim>\<open>content.error\<close> and \<^verbatim>\<open>error.message\<close>. Neither
  \<^verbatim>\<open>Object.prototype\<close> nor \<^verbatim>\<open>String.prototype\<close> defines a property of these names, so
  the read gives the object's own field, \<^verbatim>\<open>undefined\<close> when it has none (a string has
  none), and throws a TypeError on \<^verbatim>\<open>undefined\<close> and \<^verbatim>\<open>null\<close>.
\<close>

fun errorOf :: "Json \<Rightarrow> Thrown + Json" where
  "errorOf JUndefined = Inl TypeError"
| "errorOf (JStr s) = Inr JUndefined"
| "errorOf (JObj kvs) = Inr (case map_of kvs ''error'' of None \<Rightarrow> JUndefined | Some v \<Rightarrow> v)"
| "errorOf JEngineText = Inr JUndefined"

fun messageOf :: "Thrown \<Rightarrow> Thrown + Json" where
  "messageOf (Error m) = Inr (JStr m)"
| "messageOf TypeError = Inr JEngineText"
| "messageOf (Value JUndefined) = Inl TypeError"
| "messageOf (Value (JStr s)) = Inr JUndefined"
| "messageOf (Value (JObj kvs)) =
     Inr (case map_of kvs ''message'' of None \<Rightarrow> JUndefined | Some v \<Rightarrow> v)"
| "messageOf (Value JEngineText) = Inr JUndefined"

section \<open>conversation\_manager.mjs\<close>

datatype MessageType = SYSTEM | USER | ASSISTANT | TOOL_REQUEST | TOOL_RESULT | INFO

datatype NextAction =
    SEND_USER_INPUT_TO_LLM
  | WAIT_FOR_LOCAL_USER_INPUT
  | EXECUTE_LOCAL_TOOL
  | SEND_TOOL_RESULT_TO_LLM

datatype BedrockType = Bedrock_ASSISTANT | Bedrock_USER | Bedrock_SYSTEM

text \<open>A tool call \<^verbatim>\<open>{name, toolUseId, input}\<close>, as the LLM requests it and as the
  tool-request message stores it under \<^verbatim>\<open>content[0].toolUse\<close>.\<close>

record ToolCall =
  tc_toolUseId :: string
  tc_name :: string
  tc_input :: Json

text \<open>The \<^verbatim>\<open>content\<close> of a message: plain text, \<^verbatim>\<open>[{toolUse: ...}]\<close>, or
  \<^verbatim>\<open>[{toolResult: {toolUseId, content: [{json}], status}}]\<close>.\<close>

datatype Content =
    Text string
  | ToolUse ToolCall
  | ToolResult "string option" Json string

text \<open>
  A message. Fields a kind of message does not set are \<^verbatim>\<open>undefined\<close> (\<open>None\<close>,
  \<open>JUndefined\<close>). The \<^verbatim>\<open>timestamp\<close> field (wall-clock time) is left out; no code reads it.
\<close>

record Message =
  msg_id :: nat
  msg_type :: MessageType
  bedrockType :: BedrockType
  content :: Content
  toolName :: "string option"
  toolUseId :: "string option"
  error :: Json

text \<open>The class state: \<^verbatim>\<open>this.messages\<close> (a Map from id to message) and
  \<^verbatim>\<open>this.messageOrder\<close> (the array of ids).\<close>

record ConversationManager =
  messages :: "nat \<rightharpoonup> Message"
  messageOrder :: "nat list"

definition newConversationManager :: ConversationManager where
  "newConversationManager = \<lparr> messages = Map.empty, messageOrder = [] \<rparr>"

text \<open>
  \<^verbatim>\<open>randomUUID()\<close>: the code relies on one property only, that the identifier is not in use
  yet. The model draws the least number above every identifier of \<^verbatim>\<open>messageOrder\<close>.
\<close>

definition randomUUID :: "ConversationManager \<Rightarrow> nat" where
  "randomUUID c = Suc (fold max (messageOrder c) 0)"

definition addMessage :: "Message \<Rightarrow> ConversationManager \<Rightarrow> ConversationManager" where
  "addMessage msg c =
     c\<lparr> messages := (messages c)(msg_id msg \<mapsto> msg),
        messageOrder := messageOrder c @ [msg_id msg] \<rparr>"

definition systemMessage :: "nat \<Rightarrow> string \<Rightarrow> Message" where
  "systemMessage i text =
     \<lparr> msg_id = i, msg_type = SYSTEM, bedrockType = Bedrock_SYSTEM, content = Text text,
       toolName = None, toolUseId = None, error = JUndefined \<rparr>"

definition userMessage :: "nat \<Rightarrow> string \<Rightarrow> Message" where
  "userMessage i text =
     \<lparr> msg_id = i, msg_type = USER, bedrockType = Bedrock_USER, content = Text text,
       toolName = None, toolUseId = None, error = JUndefined \<rparr>"

definition assistantMessage :: "nat \<Rightarrow> string \<Rightarrow> Message" where
  "assistantMessage i text =
     \<lparr> msg_id = i, msg_type = ASSISTANT, bedrockType = Bedrock_ASSISTANT, content = Text text,
       toolName = None, toolUseId = None, error = JUndefined \<rparr>"

definition toolRequestMessage :: "nat \<Rightarrow> string \<Rightarrow> string \<Rightarrow> Json \<Rightarrow> Message" where
  "toolRequestMessage i name tid inp =
     \<lparr> msg_id = i, msg_type = TOOL_REQUEST, bedrockType = Bedrock_ASSISTANT,
       content = ToolUse \<lparr> tc_toolUseId = tid, tc_name = name, tc_input = inp \<rparr>,
       toolName = Some name, toolUseId = Some tid, error = JUndefined \<rparr>"

definition toolResultMessage :: "nat \<Rightarrow> string option \<Rightarrow> Json \<Rightarrow> Json \<Rightarrow> Message" where
  "toolResultMessage i tid body err =
     \<lparr> msg_id = i, msg_type = TOOL_RESULT, bedrockType = Bedrock_USER,
       content = ToolResult tid
         (case body of
            JStr s \<Rightarrow> JObj [(''result'', body)]
          | JEngineText \<Rightarrow> JObj [(''result'', body)]
          | _ \<Rightarrow> body)
         (if truthy err then ''error'' else ''success''),
       toolName = None, toolUseId = tid, error = err \<rparr>"

definition infoMessage :: "nat \<Rightarrow> string \<Rightarrow> Message" where
  "infoMessage i text =
     \<lparr> msg_id = i, msg_type = INFO, bedrockType = Bedrock_USER, content = Text text,
       toolName = None, toolUseId = None, error = JUndefined \<rparr>"

definition addSystemMessage :: "string \<Rightarrow> ConversationManager \<Rightarrow> ConversationManager" where
  "addSystemMessage text c = addMessage (systemMessage (randomUUID c) text) c"

definition addUserMessage :: "string \<Rightarrow> ConversationManager \<Rightarrow> ConversationManager" where
  "addUserMessage text c = addMessage (userMessage (randomUUID c) text) c"

definition addAssistantMessage :: "string \<Rightarrow> ConversationManager \<Rightarrow> ConversationManager" where
  "addAssistantMessage text c = addMessage (assistantMessage (randomUUID c) text) c"

definition addToolRequestMessage ::
  "string \<Rightarrow> string \<Rightarrow> Json \<Rightarrow> ConversationManager \<Rightarrow> ConversationManager" where
  "addToolRequestMessage name tid inp c =
     addMessage (toolRequestMessage (randomUUID c) name tid inp) c"

definition addToolResultMessage ::
  "string option \<Rightarrow> Json \<Rightarrow> Json \<Rightarrow> ConversationManager \<Rightarrow> ConversationManager" where
  "addToolResultMessage tid body err c =
     addMessage (toolResultMessage (randomUUID c) tid body err) c"

definition addInfoMessage :: "string \<Rightarrow> ConversationManager \<Rightarrow> ConversationManager" where
  "addInfoMessage text c = addMessage (infoMessage (randomUUID c) text) c"

text \<open>
  \<^verbatim>\<open>this.messageOrder.map(id => this.messages.get(id))\<close>. Every identifier of
  \<^verbatim>\<open>messageOrder\<close> was stored in the Map by \<^verbatim>\<open>addMessage\<close>, which is the only writer;
  \<open>storedAll\<close> below states it.
\<close>

definition getAllMessages :: "ConversationManager \<Rightarrow> Message list" where
  "getAllMessages c = map (\<lambda>i. the (messages c i)) (messageOrder c)"

definition getMessagesByType :: "MessageType \<Rightarrow> ConversationManager \<Rightarrow> Message list" where
  "getMessagesByType t c = filter (\<lambda>msg. msg_type msg = t) (getAllMessages c)"

definition getLastMessage :: "ConversationManager \<Rightarrow> Message option" where
  "getLastMessage c =
     (if length (messageOrder c) = 0 then None
      else messages c (messageOrder c ! (length (messageOrder c) - 1)))"

definition getNextActionForType :: "MessageType \<Rightarrow> NextAction" where
  "getNextActionForType t =
     (case t of
        USER \<Rightarrow> SEND_USER_INPUT_TO_LLM
      | ASSISTANT \<Rightarrow> WAIT_FOR_LOCAL_USER_INPUT
      | TOOL_REQUEST \<Rightarrow> EXECUTE_LOCAL_TOOL
      | TOOL_RESULT \<Rightarrow> SEND_TOOL_RESULT_TO_LLM
      | _ \<Rightarrow> WAIT_FOR_LOCAL_USER_INPUT)"

text \<open>
  The loop \<^verbatim>\<open>for (let i = messages.length - 2; i >= 0; i--)\<close> of the INFO case. The
  argument \<open>k\<close> is \<open>i + 1\<close>, so that \<open>k = 0\<close> is the exit of the loop.
\<close>

fun previousNonInfo :: "Message list \<Rightarrow> nat \<Rightarrow> NextAction" where
  "previousNonInfo msgs 0 = WAIT_FOR_LOCAL_USER_INPUT"
| "previousNonInfo msgs (Suc i) =
     (if msg_type (msgs ! i) \<noteq> INFO then getNextActionForType (msg_type (msgs ! i))
      else previousNonInfo msgs i)"

definition getNextAction :: "ConversationManager \<Rightarrow> NextAction" where
  "getNextAction c =
     (case getLastMessage c of
        None \<Rightarrow> WAIT_FOR_LOCAL_USER_INPUT
      | Some lastMessage \<Rightarrow>
          (case msg_type lastMessage of
             USER \<Rightarrow> SEND_USER_INPUT_TO_LLM
           | ASSISTANT \<Rightarrow> WAIT_FOR_LOCAL_USER_INPUT
           | TOOL_REQUEST \<Rightarrow> EXECUTE_LOCAL_TOOL
           | TOOL_RESULT \<Rightarrow> SEND_TOOL_RESULT_TO_LLM
           | SYSTEM \<Rightarrow> WAIT_FOR_LOCAL_USER_INPUT
           | INFO \<Rightarrow> previousNonInfo (getAllMessages c) (length (getAllMessages c) - 1)))"

text \<open>Every identifier of the order array has its message in the Map.\<close>

definition storedAll :: "ConversationManager \<Rightarrow> bool" where
  "storedAll c = list_all (\<lambda>i. messages c i \<noteq> None) (messageOrder c)"

subsection \<open>The state table of the specification\<close>

text \<open>
  The specification's decision table (section 4.3), written from its words: the action is
  decided by the kind of the most recent message that is not \<open>info\<close>; an empty log, or one
  with \<open>info\<close> messages only, awaits the user.
\<close>

datatype SpecAction = AwaitingUser | InvokeModel | RunTool

fun specTable :: "MessageType \<Rightarrow> SpecAction" where
  "specTable SYSTEM = AwaitingUser"
| "specTable USER = InvokeModel"
| "specTable ASSISTANT = AwaitingUser"
| "specTable TOOL_REQUEST = RunTool"
| "specTable TOOL_RESULT = InvokeModel"
| "specTable INFO = AwaitingUser"

definition specNextAction :: "MessageType list \<Rightarrow> SpecAction" where
  "specNextAction kinds =
     (case dropWhile (\<lambda>k. k = INFO) (rev kinds) of
        [] \<Rightarrow> AwaitingUser
      | k # _ \<Rightarrow> specTable k)"

text \<open>How the code's four actions read in the specification's three.\<close>

fun specOf :: "NextAction \<Rightarrow> SpecAction" where
  "specOf SEND_USER_INPUT_TO_LLM = InvokeModel"
| "specOf SEND_TOOL_RESULT_TO_LLM = InvokeModel"
| "specOf EXECUTE_LOCAL_TOOL = RunTool"
| "specOf WAIT_FOR_LOCAL_USER_INPUT = AwaitingUser"

section \<open>event\_bus.mjs\<close>

text \<open>
  The class state. \<^verbatim>\<open>this.listeners\<close> is a Map from event name to an array of callbacks,
  and the code shares these arrays: \<^verbatim>\<open>emit\<close> iterates over the array the Map holds while
  the callbacks run, and the function \<^verbatim>\<open>on\<close> returns keeps the array it pushed to. So the
  arrays live in a store, \<open>arrays\<close>, under addresses, and the Map holds addresses;
  \<open>nextAddress\<close> is the next address not in use.

  A callback is a function object: \<^verbatim>\<open>indexOf\<close> compares callbacks by identity. An array
  holds the identities (numbers); what a function object does when called is given apart,
  by a table from identities to behaviours.
\<close>

record EventBus =
  arrays :: "nat \<Rightarrow> nat list"
  nextAddress :: nat
  listeners :: "string \<rightharpoonup> nat"

text \<open>
  What a callback does when called with a payload: it is code of the subscriber, so it may
  change the world outside (\<open>'w\<close>, threaded through every call to a collaborator), it may
  use the bus it has a reference to (subscribe, unsubscribe, clear), and it either returns
  a value or throws.
\<close>

type_synonym ('d, 'r, 'w) callback =
  "'d \<Rightarrow> EventBus \<Rightarrow> 'w \<Rightarrow> (Thrown + 'r) \<times> EventBus \<times> 'w"

definition newEventBus :: EventBus where
  "newEventBus = \<lparr> arrays = (\<lambda>a. []), nextAddress = 0, listeners = Map.empty \<rparr>"

text \<open>The function \<^verbatim>\<open>on\<close> returns: a closure over the array \<^verbatim>\<open>eventListeners\<close> and the
  callback.\<close>

datatype Unsubscribe = Unsubscribe nat nat

text \<open>\<^verbatim>\<open>on(eventName, callback)\<close>: sets a new empty array when the Map has none for the
  event, pushes the callback, and returns the unsubscribe function.\<close>

definition eventBus_on :: "string \<Rightarrow> nat \<Rightarrow> EventBus \<Rightarrow> Unsubscribe \<times> EventBus" where
  "eventBus_on eventName cb bus =
     (let bus1 =
            (case listeners bus eventName of
               None \<Rightarrow> bus\<lparr> arrays := (arrays bus)(nextAddress bus := []),
                             nextAddress := Suc (nextAddress bus),
                             listeners := (listeners bus)(eventName \<mapsto> nextAddress bus) \<rparr>
             | Some a \<Rightarrow> bus);
          eventListeners = (case listeners bus eventName of None \<Rightarrow> nextAddress bus | Some a \<Rightarrow> a)
      in (Unsubscribe eventListeners cb,
          bus1\<lparr> arrays := (arrays bus1)(eventListeners := arrays bus1 eventListeners @ [cb]) \<rparr>))"

text \<open>Calling the returned function: \<^verbatim>\<open>indexOf\<close> finds the first occurrence of the
  callback in the array it closed over, and \<^verbatim>\<open>splice(index, 1)\<close> removes it.\<close>

fun unsubscribe :: "Unsubscribe \<Rightarrow> EventBus \<Rightarrow> EventBus" where
  "unsubscribe (Unsubscribe eventListeners cb) bus =
     bus\<lparr> arrays := (arrays bus)(eventListeners := remove1 cb (arrays bus eventListeners)) \<rparr>"

text \<open>
  One call of a callback as \<^verbatim>\<open>emit\<close> made it: which function object was called, how the
  call ended, and the array of listeners as the call left it. The list of these calls is
  kept beside what \<^verbatim>\<open>emit\<close> returns, to say which callbacks ran.
\<close>

record 'r Call =
  callee :: nat
  outcome :: "Thrown + 'r"
  listenersAfter :: "nat list"

text \<open>What \<^verbatim>\<open>emit\<close> gives: the array it returns (\<open>None\<close> is a hole) or what it throws,
  the calls it made, and the bus and the world as the callbacks left them.\<close>

record ('r, 'w) Emission =
  emitted :: "Thrown + 'r option list"
  callsMade :: "'r Call list"
  busAfter :: EventBus
  worldAfter :: 'w

text \<open>
  \<^verbatim>\<open>eventListeners.map(callback => callback(data))\<close>. \<^verbatim>\<open>Array.prototype.map\<close> reads the
  length of the array once, before the first call, and then visits the indices below it in
  increasing order. At each index it looks at the array as it is by then: when the index
  is still inside the array, the element found there is called; when the array has become
  shorter, the index is skipped and the result has a hole. A callback that throws ends the
  \<^verbatim>\<open>map\<close>, and the exception leaves it.

  The arguments: the address \<open>a\<close> of the array, the index \<open>k\<close> to visit next and the number
  \<open>todo\<close> of indices left to visit.
\<close>

fun mapCallbacks ::
  "(nat \<Rightarrow> ('d, 'r, 'w) callback) \<Rightarrow> nat \<Rightarrow> nat \<Rightarrow> nat \<Rightarrow> 'd \<Rightarrow> EventBus \<Rightarrow> 'w \<Rightarrow>
   ('r, 'w) Emission" where
  "mapCallbacks behaviours a k 0 d bus w =
     \<lparr> emitted = Inr [], callsMade = [], busAfter = bus, worldAfter = w \<rparr>"
| "mapCallbacks behaviours a k (Suc todo) d bus w =
     (if k < length (arrays bus a)
      then
        (case behaviours (arrays bus a ! k) d bus w of
           (Inl e, bus1, w1) \<Rightarrow>
             \<lparr> emitted = Inl e,
               callsMade = [\<lparr> callee = arrays bus a ! k, outcome = Inl e,
                          listenersAfter = arrays bus1 a \<rparr>],
               busAfter = bus1, worldAfter = w1 \<rparr>
         | (Inr r, bus1, w1) \<Rightarrow>
             (let rest = mapCallbacks behaviours a (Suc k) todo d bus1 w1
              in rest\<lparr> emitted := map_sum id ((#) (Some r)) (emitted rest),
                       callsMade := \<lparr> callee = arrays bus a ! k, outcome = Inr r,
                                   listenersAfter = arrays bus1 a \<rparr> # callsMade rest \<rparr>))
      else
        (let rest = mapCallbacks behaviours a (Suc k) todo d bus w
         in rest\<lparr> emitted := map_sum id ((#) None) (emitted rest) \<rparr>))"

definition emit ::
  "(nat \<Rightarrow> ('d, 'r, 'w) callback) \<Rightarrow> EventBus \<Rightarrow> string \<Rightarrow> 'd \<Rightarrow> 'w \<Rightarrow> ('r, 'w) Emission" where
  "emit behaviours bus eventName d w =
     (case listeners bus eventName of
        None \<Rightarrow> \<lparr> emitted = Inr [], callsMade = [], busAfter = bus, worldAfter = w \<rparr>
      | Some eventListeners \<Rightarrow>
          if length (arrays bus eventListeners) = 0
          then \<lparr> emitted = Inr [], callsMade = [], busAfter = bus, worldAfter = w \<rparr>
          else mapCallbacks behaviours eventListeners 0 (length (arrays bus eventListeners))
                 d bus w)"

text \<open>\<^verbatim>\<open>clearListeners\<close> and \<^verbatim>\<open>clearAllListeners\<close> remove entries of the Map; an array
  that was in the Map stays what it is for those who hold it.\<close>

definition clearListeners :: "string \<Rightarrow> EventBus \<Rightarrow> EventBus" where
  "clearListeners eventName bus = bus\<lparr> listeners := (listeners bus)(eventName := None) \<rparr>"

definition clearAllListeners :: "EventBus \<Rightarrow> EventBus" where
  "clearAllListeners bus = bus\<lparr> listeners := Map.empty \<rparr>"

section \<open>tool.mjs\<close>

text \<open>What \<^verbatim>\<open>validate(params)\<close> returns: \<^verbatim>\<open>{ ok: boolean, error?: string }\<close>.\<close>

record ValidationResult =
  ok :: bool
  validation_error :: Json

text \<open>
  The methods of a tool that the agent calls. A tool is an object of a subclass of
  \<^verbatim>\<open>Tool\<close> (\<^verbatim>\<open>createTool\<close> builds one from a configuration), and \<^verbatim>\<open>validate\<close> and
  \<^verbatim>\<open>requiresAcceptance\<close> are code of its author: a call may read and change the world
  outside, so that two calls on the same input need not give the same result, and it
  either returns or throws (\<^verbatim>\<open>validate\<close> of the base class throws
  \<^verbatim>\<open>'Tool must implement validate()'\<close>). \<^verbatim>\<open>getName\<close> is taken to return the name and
  do nothing else, as the one of \<^verbatim>\<open>createTool\<close> does; an object of the bare class
  \<^verbatim>\<open>Tool\<close>, whose \<^verbatim>\<open>getName\<close> throws, is not a tool of the model. The agent never calls
  \<^verbatim>\<open>execute\<close> itself: a tool runs inside the LLM service's \<^verbatim>\<open>processToolCalls\<close>.
\<close>

record 'w Tool =
  getName :: string
  validate :: "Json \<Rightarrow> 'w \<Rightarrow> (Thrown + ValidationResult) \<times> 'w"
  requiresAcceptance :: "Json \<Rightarrow> 'w \<Rightarrow> (Thrown + bool) \<times> 'w"

section \<open>The agent (createAgent)\<close>

subsection \<open>The LLM service\<close>

text \<open>
  The response of \<^verbatim>\<open>invokeModel\<close>: of type \<^verbatim>\<open>'ASSISTANT_TOOL_REQUEST'\<close> with its
  \<^verbatim>\<open>toolCalls\<close> (\<^verbatim>\<open>toolCalls || []\<close>: none is the empty list), or anything else, of which
  the agent reads \<^verbatim>\<open>content\<close>.
\<close>

datatype Response = ASSISTANT_TOOL_REQUEST "ToolCall list" | ASSISTANT_CONTENT string

text \<open>One element of what \<^verbatim>\<open>processToolCalls\<close> returns: \<^verbatim>\<open>{toolUseId, content}\<close>.\<close>

record ToolCallResult =
  res_toolUseId :: string
  res_content :: Json

text \<open>
  The LLM service is outside the agent: each call may read and change the world \<open>'w\<close>
  (the model's own state, the effects of the tools it runs), so the same request may be
  answered differently at different times, and each call either returns or throws.
\<close>

record 'w LLM =
  registerTools :: "'w Tool list \<Rightarrow> 'w \<Rightarrow> 'w"
  invokeModel :: "Message list \<Rightarrow> 'w \<Rightarrow> (Thrown + Response) \<times> 'w"
  processToolCalls :: "ToolCall list \<Rightarrow> 'w \<Rightarrow> (Thrown + ToolCallResult list) \<times> 'w"

subsection \<open>Events and the trace of calls\<close>

text \<open>
  The payloads the agent emits (the \<^verbatim>\<open>timestamp\<close>, \<^verbatim>\<open>messageId\<close> and \<^verbatim>\<open>duration\<close>
  members, wall-clock readings and a constant, are left out):
  \<^item> \<open>MessageEvent content\<close> for \<^verbatim>\<open>userSent\<close> and \<^verbatim>\<open>assistantReceive\<close>;
  \<^item> \<open>ErrorEvent error\<close> for \<^verbatim>\<open>error\<close> from \<^verbatim>\<open>sendToLLM\<close>, with what
    \<^verbatim>\<open>error.message\<close> gave;
  \<^item> \<open>ToolErrorEvent toolUseId toolName error\<close> for \<^verbatim>\<open>error\<close> from \<^verbatim>\<open>emitToolError\<close>;
  \<^item> \<open>ToolConfirmationEvent toolUseId toolName input\<close> for \<^verbatim>\<open>toolConfirmation\<close>;
  \<^item> \<open>ToolStartEvent toolUseId toolName input\<close> for \<^verbatim>\<open>toolStart\<close>;
  \<^item> \<open>ToolEndEvent toolUseId toolName result\<close> for \<^verbatim>\<open>toolEnd\<close>.
\<close>

datatype EventData =
    MessageEvent string
  | ErrorEvent Json
  | ToolErrorEvent "string option" "string option" Json
  | ToolConfirmationEvent string string Json
  | ToolStartEvent "string option" "string option" Json
  | ToolEndEvent "string option" "string option" "ToolCallResult list"

text \<open>What the agent did to its collaborators, in order: the calls of \<^verbatim>\<open>eventBus.emit\<close>,
  \<^verbatim>\<open>llm.invokeModel\<close> and \<^verbatim>\<open>llm.processToolCalls\<close>.\<close>

datatype Effect =
    Emitted string EventData
  | ModelInvoked "Message list"
  | ToolCallsProcessed "ToolCall list"

subsection \<open>The closure of createAgent\<close>

text \<open>
  The constants of the closure, and \<open>callbacks\<close>: what each function object does that is
  subscribed as a handler (the event bus holds the identities, see above). A handler gets
  the payload; the bus is in its reach through \<^verbatim>\<open>agent.on\<close> and \<^verbatim>\<open>agent.shutdown\<close>.
\<close>

record 'w Agent =
  llm :: "'w LLM"
  tools :: "'w Tool list"
  acceptAll :: bool
  callbacks :: "nat \<Rightarrow> (EventData, unit, 'w) callback"

text \<open>What changes over time: the conversation, the event bus, the world outside, and
  the trace.\<close>

record 'w AgentState =
  conversation :: ConversationManager
  eventBus :: EventBus
  world :: 'w
  trace :: "Effect list"

text \<open>
  The outcome of an asynchronous function of the agent: \<open>None\<close> when the fuel runs out
  (the promise is not settled within the given number of nested
  \<^verbatim>\<open>processConversation\<close> calls), else the state it leaves and whether it returned
  (\<open>Inr\<close>) or threw (\<open>Inl\<close>).
\<close>

type_synonym ('a, 'w) outcome = "((Thrown + 'a) \<times> 'w AgentState) option"

text \<open>\<^verbatim>\<open>await\<close>: the rest runs on the value and the state the awaited call leaves; an
  exception of the awaited call, or its not settling, is the outcome of the whole.\<close>

definition await ::
  "('a, 'w) outcome \<Rightarrow> ('a \<Rightarrow> 'w AgentState \<Rightarrow> ('b, 'w) outcome) \<Rightarrow> ('b, 'w) outcome" where
  "await m rest =
     (case m of
        None \<Rightarrow> None
      | Some (Inl e, st) \<Rightarrow> Some (Inl e, st)
      | Some (Inr v, st) \<Rightarrow> rest v st)"

text \<open>\<^verbatim>\<open>try { ... } catch (error) { ... }\<close>: the handler runs on the exception and the
  state the block left when it threw.\<close>

definition tryCatch ::
  "('a, 'w) outcome \<Rightarrow> (Thrown \<Rightarrow> 'w AgentState \<Rightarrow> ('a, 'w) outcome) \<Rightarrow> ('a, 'w) outcome" where
  "tryCatch m handler =
     (case m of
        None \<Rightarrow> None
      | Some (Inl e, st) \<Rightarrow> handler e st
      | Some (Inr v, st) \<Rightarrow> Some (Inr v, st))"

text \<open>\<^verbatim>\<open>eventBus.emit(eventName, data)\<close> as the agent calls it: the array \<^verbatim>\<open>emit\<close>
  returns is dropped, and what a handler throws leaves the call.\<close>

definition emitEvent ::
  "'w Agent \<Rightarrow> string \<Rightarrow> EventData \<Rightarrow> 'w AgentState \<Rightarrow> (Thrown + unit) \<times> 'w AgentState" where
  "emitEvent agent eventName d st =
     (let emission = emit (callbacks agent) (eventBus st) eventName d (world st)
      in (case emitted emission of Inl e \<Rightarrow> Inl e | Inr results \<Rightarrow> Inr (),
          st\<lparr> eventBus := busAfter emission, world := worldAfter emission,
              trace := trace st @ [Emitted eventName d] \<rparr>))"

text \<open>The configuration of \<^verbatim>\<open>createAgent\<close>; \<^verbatim>\<open>messages\<close>, \<^verbatim>\<open>tools\<close> and
  \<^verbatim>\<open>acceptAll\<close> are optional.\<close>

record 'w AgentConfig =
  config_system :: string
  config_messages :: "string list option"
  config_llm :: "'w LLM"
  config_tools :: "'w Tool list option"
  config_acceptAll :: "bool option"

text \<open>\<^verbatim>\<open>initialize()\<close>: the system message, then one user message per initial message.\<close>

definition initialize :: "string \<Rightarrow> string list \<Rightarrow> ConversationManager" where
  "initialize system initialMessages =
     fold addUserMessage initialMessages (addSystemMessage system newConversationManager)"

definition createAgent ::
  "(nat \<Rightarrow> (EventData, unit, 'w) callback) \<Rightarrow> 'w AgentConfig \<Rightarrow> 'w \<Rightarrow>
   'w Agent \<times> 'w AgentState" where
  "createAgent behaviours config w =
     (let initialMessages = (case config_messages config of None \<Rightarrow> [] | Some ms \<Rightarrow> ms);
          tools = (case config_tools config of None \<Rightarrow> [] | Some ts \<Rightarrow> ts);
          acceptAll = (case config_acceptAll config of None \<Rightarrow> False | Some b \<Rightarrow> b)
      in (\<lparr> llm = config_llm config, tools = tools, acceptAll = acceptAll,
             callbacks = behaviours \<rparr>,
          \<lparr> conversation = initialize (config_system config) initialMessages,
            eventBus = newEventBus,
            world = registerTools (config_llm config) tools w,
            trace = [] \<rparr>))"

text \<open>\<^verbatim>\<open>await llm.invokeModel(messages)\<close> on \<^verbatim>\<open>conversation.getAllMessages()\<close>.\<close>

definition callModel :: "'w Agent \<Rightarrow> 'w AgentState \<Rightarrow> (Thrown + Response) \<times> 'w AgentState" where
  "callModel agent st =
     (case invokeModel (llm agent) (getAllMessages (conversation st)) (world st) of
        (r, w) \<Rightarrow>
          (r, st\<lparr> world := w,
                 trace := trace st @ [ModelInvoked (getAllMessages (conversation st))] \<rparr>))"

subsection \<open>Calls of the tool's methods\<close>

text \<open>\<^verbatim>\<open>tool.validate(toolCall.input)\<close>\<close>

definition callValidate ::
  "'w Tool \<Rightarrow> ToolCall \<Rightarrow> 'w AgentState \<Rightarrow> (Thrown + ValidationResult) \<times> 'w AgentState" where
  "callValidate tool toolCall st =
     (case validate tool (tc_input toolCall) (world st) of
        (r, w) \<Rightarrow> (r, st\<lparr> world := w \<rparr>))"

text \<open>\<^verbatim>\<open>tool.requiresAcceptance(toolCall.input)\<close>\<close>

definition callRequiresAcceptance ::
  "'w Tool \<Rightarrow> ToolCall \<Rightarrow> 'w AgentState \<Rightarrow> (Thrown + bool) \<times> 'w AgentState" where
  "callRequiresAcceptance tool toolCall st =
     (case requiresAcceptance tool (tc_input toolCall) (world st) of
        (r, w) \<Rightarrow> (r, st\<lparr> world := w \<rparr>))"

subsection \<open>The confirmation policy\<close>

text \<open>\<^verbatim>\<open>needsConfirmation(toolCall, tool)\<close>: \<^verbatim>\<open>requiresAcceptance\<close> is called for the
  tool named \<^verbatim>\<open>execute_bash\<close> only (the \<^verbatim>\<open>&&\<close> does not evaluate its right side
  otherwise).\<close>

definition needsConfirmation ::
  "ToolCall \<Rightarrow> 'w Tool \<Rightarrow> 'w AgentState \<Rightarrow> (Thrown + bool) \<times> 'w AgentState" where
  "needsConfirmation toolCall tool st =
     (case (if tc_name toolCall = ''execute_bash''
            then callRequiresAcceptance tool toolCall st
            else (Inr False, st)) of
        (Inl e, st1) \<Rightarrow> (Inl e, st1)
      | (Inr required, st1) \<Rightarrow>
          (Inr (if required then True
                else if tc_name toolCall = ''fs_write'' then True
                else False),
           st1))"

definition requestConfirmation ::
  "'w Agent \<Rightarrow> ToolCall \<Rightarrow> 'w AgentState \<Rightarrow> (Thrown + unit) \<times> 'w AgentState" where
  "requestConfirmation agent toolCall st =
     emitEvent agent ''toolConfirmation''
       (ToolConfirmationEvent (tc_toolUseId toolCall) (tc_name toolCall) (tc_input toolCall)) st"

text \<open>\<^verbatim>\<open>emitToolError(toolCall, error)\<close> reads \<^verbatim>\<open>toolCall.toolUseId\<close> and
  \<^verbatim>\<open>toolCall.name\<close>; the caller passes what these two reads give.\<close>

definition emitToolError ::
  "'w Agent \<Rightarrow> string option \<Rightarrow> string option \<Rightarrow> Json \<Rightarrow> 'w AgentState \<Rightarrow>
   (Thrown + unit) \<times> 'w AgentState" where
  "emitToolError agent tid name err st =
     emitEvent agent ''error'' (ToolErrorEvent tid name err) st"

subsection \<open>The straight-line parts of executeValidatedTool\<close>

text \<open>\<^verbatim>\<open>messages.find(msg => msg.type === 'tool-request' && msg.toolUseId === toolUseId)\<close>\<close>

definition findToolRequest :: "string option \<Rightarrow> Message list \<Rightarrow> Message option" where
  "findToolRequest tid msgs =
     find (\<lambda>msg. msg_type msg = TOOL_REQUEST \<and> toolUseId msg = tid) msgs"

text \<open>\<^verbatim>\<open>toolRequest.content[0].toolUse\<close>, of which \<^verbatim>\<open>.input\<close> is read next: a TypeError
  when the content holds no \<^verbatim>\<open>toolUse\<close>.\<close>

definition toolUseOf :: "Message \<Rightarrow> Thrown + ToolCall" where
  "toolUseOf msg =
     (case content msg of
        ToolUse toolUse \<Rightarrow> Inr toolUse
      | _ \<Rightarrow> Inl TypeError)"

text \<open>The loop \<^verbatim>\<open>for (const res of result)\<close>: \<^verbatim>\<open>content.error\<close> is read before the
  message is added, and throws when \<^verbatim>\<open>res.content\<close> is \<^verbatim>\<open>undefined\<close>.\<close>

fun addToolResults ::
  "ToolCallResult list \<Rightarrow> ConversationManager \<Rightarrow> (Thrown + unit) \<times> ConversationManager" where
  "addToolResults [] c = (Inr (), c)"
| "addToolResults (res # rest) c =
     (case errorOf (res_content res) of
        Inl e \<Rightarrow> (Inl e, c)
      | Inr err \<Rightarrow>
          addToolResults rest
            (addToolResultMessage (Some (res_toolUseId res)) (res_content res) err c))"

text \<open>The \<^verbatim>\<open>try\<close> block up to its call of \<^verbatim>\<open>processConversation\<close>:
  \<^verbatim>\<open>llm.processToolCalls\<close>, the \<^verbatim>\<open>toolEnd\<close> event, the tool-result messages.\<close>

definition callTool ::
  "'w Agent \<Rightarrow> Message \<Rightarrow> ToolCall \<Rightarrow> 'w AgentState \<Rightarrow> (Thrown + unit) \<times> 'w AgentState" where
  "callTool agent toolRequest toolUse st =
     (case processToolCalls (llm agent) [toolUse] (world st) of
        (r, w) \<Rightarrow>
          (let st1 = st\<lparr> world := w, trace := trace st @ [ToolCallsProcessed [toolUse]] \<rparr>
           in case r of
                Inl e \<Rightarrow> (Inl e, st1)
              | Inr result \<Rightarrow>
                  (case emitEvent agent ''toolEnd''
                          (ToolEndEvent (toolUseId toolRequest) (toolName toolRequest) result)
                          st1 of
                     (Inl e, st2) \<Rightarrow> (Inl e, st2)
                   | (Inr u, st2) \<Rightarrow>
                       (case addToolResults result (conversation st2) of
                          (r', c) \<Rightarrow> (r', st2\<lparr> conversation := c \<rparr>)))))"

text \<open>The \<^verbatim>\<open>catch\<close> block up to its call of \<^verbatim>\<open>processConversation\<close>: the read of
  \<^verbatim>\<open>error.message\<close> (first for \<^verbatim>\<open>console.error\<close>), which throws when the caught value
  is \<^verbatim>\<open>undefined\<close> or \<^verbatim>\<open>null\<close>; \<^verbatim>\<open>emitToolError(toolRequest, error.message)\<close> (a
  message has no \<^verbatim>\<open>name\<close>, so the event's \<^verbatim>\<open>toolName\<close> is \<^verbatim>\<open>undefined\<close>); then the
  tool-result message with the error.\<close>

definition recordToolFailure ::
  "'w Agent \<Rightarrow> Message \<Rightarrow> Thrown \<Rightarrow> 'w AgentState \<Rightarrow> (Thrown + unit) \<times> 'w AgentState" where
  "recordToolFailure agent toolRequest e st =
     (case messageOf e of
        Inl e' \<Rightarrow> (Inl e', st)
      | Inr msg \<Rightarrow>
          (case emitToolError agent (toolUseId toolRequest) None msg st of
             (Inl e', st1) \<Rightarrow> (Inl e', st1)
           | (Inr u, st1) \<Rightarrow>
               (Inr (),
                st1\<lparr> conversation :=
                  addToolResultMessage (toolUseId toolRequest)
                    (JObj [(''error'', msg)]) msg (conversation st1) \<rparr>)))"

text \<open>The \<^verbatim>\<open>catch\<close> block of \<^verbatim>\<open>sendToLLM\<close>: the read of \<^verbatim>\<open>error.message\<close> for the
  payload, which throws when the caught value is \<^verbatim>\<open>undefined\<close> or \<^verbatim>\<open>null\<close>, then the
  \<^verbatim>\<open>error\<close> event.\<close>

definition reportError ::
  "'w Agent \<Rightarrow> Thrown \<Rightarrow> 'w AgentState \<Rightarrow> (Thrown + unit) \<times> 'w AgentState" where
  "reportError agent e st =
     (case messageOf e of
        Inl e' \<Rightarrow> (Inl e', st)
      | Inr msg \<Rightarrow> emitEvent agent ''error'' (ErrorEvent msg) st)"

text \<open>\<^verbatim>\<open>messages.find(msg => msg.type === 'tool-request' &&
  !messages.some(m => m.type === 'tool-result' && m.toolUseId === msg.toolUseId))\<close>\<close>

definition findUnansweredRequest :: "Message list \<Rightarrow> Message option" where
  "findUnansweredRequest msgs =
     find (\<lambda>msg. msg_type msg = TOOL_REQUEST \<and>
                 \<not> list_ex (\<lambda>m. msg_type m = TOOL_RESULT \<and> toolUseId m = toolUseId msg) msgs)
       msgs"

text \<open>The validation branch of \<^verbatim>\<open>validateAndProcessTools\<close>, once \<^verbatim>\<open>error\<close> is
  bound: the \<^verbatim>\<open>error\<close> event, then the tool-result message \<^verbatim>\<open>({ error }, error)\<close>.\<close>

definition rejectToolCall ::
  "'w Agent \<Rightarrow> ToolCall \<Rightarrow> Json \<Rightarrow> 'w AgentState \<Rightarrow> (Thrown + unit) \<times> 'w AgentState" where
  "rejectToolCall agent toolCall err st =
     (case emitToolError agent (Some (tc_toolUseId toolCall)) (Some (tc_name toolCall)) err st of
        (Inl e, st1) \<Rightarrow> (Inl e, st1)
      | (Inr u, st1) \<Rightarrow>
          (Inr (),
           st1\<lparr> conversation :=
             addToolResultMessage (Some (tc_toolUseId toolCall))
               (JObj [(''error'', err)]) err (conversation st1) \<rparr>))"

subsection \<open>Processing the conversation\<close>

text \<open>
  The five behaviours call each other and may do so without end (the model may keep
  requesting tools). The first argument is fuel: each call of \<^verbatim>\<open>processConversation\<close>
  uses one unit, and \<open>None\<close> is the outcome of a run that needs more than it was given.
\<close>

function (sequential)
  processConversation :: "nat \<Rightarrow> 'w Agent \<Rightarrow> 'w AgentState \<Rightarrow> (unit, 'w) outcome" and
  sendToLLM :: "nat \<Rightarrow> 'w Agent \<Rightarrow> 'w AgentState \<Rightarrow> (unit, 'w) outcome" and
  validateAndProcessTools ::
    "nat \<Rightarrow> ToolCall list \<Rightarrow> 'w Agent \<Rightarrow> 'w AgentState \<Rightarrow> (unit, 'w) outcome" and
  executeNextTool :: "nat \<Rightarrow> 'w Agent \<Rightarrow> 'w AgentState \<Rightarrow> (unit, 'w) outcome" and
  executeValidatedTool ::
    "nat \<Rightarrow> string option \<Rightarrow> 'w Agent \<Rightarrow> 'w AgentState \<Rightarrow> (unit, 'w) outcome"
where
  "processConversation 0 agent st = None"
| "processConversation (Suc n) agent st =
     (case getNextAction (conversation st) of
        SEND_USER_INPUT_TO_LLM \<Rightarrow> sendToLLM n agent st
      | SEND_TOOL_RESULT_TO_LLM \<Rightarrow> sendToLLM n agent st
      | EXECUTE_LOCAL_TOOL \<Rightarrow> executeNextTool n agent st
      | WAIT_FOR_LOCAL_USER_INPUT \<Rightarrow> Some (Inr (), st))"
| "sendToLLM n agent st =
     tryCatch
       (await (Some (callModel agent st)) (\<lambda>response st1.
          await
            (case response of
               ASSISTANT_TOOL_REQUEST toolCalls \<Rightarrow>
                 validateAndProcessTools n toolCalls agent st1
             | ASSISTANT_CONTENT text \<Rightarrow>
                 Some (emitEvent agent ''assistantReceive'' (MessageEvent text)
                   (st1\<lparr> conversation := addAssistantMessage text (conversation st1) \<rparr>)))
            (\<lambda>u st2. processConversation n agent st2)))
       (\<lambda>thrown st3. Some (reportError agent thrown st3))"
| "validateAndProcessTools n [] agent st = Some (Inr (), st)"
| "validateAndProcessTools n (toolCall # rest) agent st =
     (case find (\<lambda>x. getName x = tc_name toolCall) (tools agent) of
        None \<Rightarrow> validateAndProcessTools n rest agent st
      | Some tool \<Rightarrow>
          await
            (Some (callValidate tool toolCall
               (st\<lparr> conversation :=
                  addToolRequestMessage (tc_name toolCall) (tc_toolUseId toolCall)
                    (tc_input toolCall) (conversation st) \<rparr>)))
            (\<lambda>v st1.
               if \<not> ok v
               then
                 await (Some (callValidate tool toolCall st1))
                   (\<lambda>v2 st2. Some (rejectToolCall agent toolCall (validation_error v2) st2))
               else
                 await
                   (if acceptAll agent then Some (Inr False, st1)
                    else Some (needsConfirmation toolCall tool st1))
                   (\<lambda>gated st2.
                      if gated then Some (requestConfirmation agent toolCall st2)
                      else
                        await
                          (executeValidatedTool n (Some (tc_toolUseId toolCall)) agent st2)
                          (\<lambda>u st3. validateAndProcessTools n rest agent st3))))"
| "executeNextTool n agent st =
     (case findUnansweredRequest (getAllMessages (conversation st)) of
        Some toolRequest \<Rightarrow> executeValidatedTool n (toolUseId toolRequest) agent st
      | None \<Rightarrow> Some (Inr (), st))"
| "executeValidatedTool n tid agent st =
     (case findToolRequest tid (getAllMessages (conversation st)) of
        None \<Rightarrow> Some (Inr (), st)
      | Some toolRequest \<Rightarrow>
          (case toolUseOf toolRequest of
             Inl e \<Rightarrow> Some (Inl e, st)
           | Inr toolUse \<Rightarrow>
               await
                 (Some (emitEvent agent ''toolStart''
                    (ToolStartEvent (toolUseId toolRequest) (toolName toolRequest)
                       (tc_input toolUse)) st))
                 (\<lambda>u st1.
                    tryCatch
                      (await (Some (callTool agent toolRequest toolUse st1))
                         (\<lambda>u st2. processConversation n agent st2))
                      (\<lambda>thrown st3.
                         await (Some (recordToolFailure agent toolRequest thrown st3))
                           (\<lambda>u st4. processConversation n agent st4)))))"
  by pat_completeness auto

text \<open>
  Termination of the model: the fuel decreases at every call of \<^verbatim>\<open>processConversation\<close>;
  between two such calls the functions call each other downwards only
  (\<open>sendToLLM\<close>, then \<open>validateAndProcessTools\<close> and \<open>executeNextTool\<close>, then
  \<open>executeValidatedTool\<close>, then \<open>processConversation\<close>), and the loop over the tool calls
  shortens its list.
\<close>

termination
proof (relation "inv_image (less_than <*lex*> less_than <*lex*> less_than)
    (\<lambda>x. case x of
        Inl (Inl (n, agent, st)) \<Rightarrow> (n, 0::nat, 0::nat)
      | Inl (Inr (n, agent, st)) \<Rightarrow> (n, 3, 0)
      | Inr (Inl (n, toolCalls, agent, st)) \<Rightarrow> (n, 2, length toolCalls)
      | Inr (Inr (Inl (n, agent, st))) \<Rightarrow> (n, 2, 0)
      | Inr (Inr (Inr (n, tid, agent, st))) \<Rightarrow> (n, 1, 0))", goal_cases)
  case 1
  show ?case by (intro wf_inv_image wf_lex_prod wf_less_than)
qed simp_all

declare processConversation.simps [simp del] sendToLLM.simps [simp del]
  validateAndProcessTools.simps [simp del] executeNextTool.simps [simp del]
  executeValidatedTool.simps [simp del]

subsection \<open>The public API\<close>

text \<open>
  \<^verbatim>\<open>on(handlers)\<close>: every handler of the object that is present is subscribed to the event
  of its key; the table lists the keys the code looks at, in its order, with their events.
  What \<^verbatim>\<open>eventBus.on\<close> returns, the function that unsubscribes, is dropped.
\<close>

definition handlerEvents :: "(string \<times> string) list" where
  "handlerEvents =
     [(''start'', ''start''), (''toolStart'', ''toolStart''),
      (''toolConfirmation'', ''toolConfirmation''), (''toolEnd'', ''toolEnd''),
      (''userSent'', ''userSent''), (''assistantReceive'', ''assistantReceive''),
      (''error'', ''error''), (''fileNewContent'', ''file:newContentSuggestion''),
      (''fileUpdateContent'', ''file:updateContentSuggestion''),
      (''tokenUsage'', ''llm:tokenUsage''), (''systemClosed'', ''system:closed'')]"

definition agent_on :: "(string \<rightharpoonup> nat) \<Rightarrow> 'w AgentState \<Rightarrow> 'w AgentState" where
  "agent_on handlers st =
     st\<lparr> eventBus :=
       fold (\<lambda>(key, eventName) bus.
               case handlers key of
                 None \<Rightarrow> bus
               | Some handler \<Rightarrow> snd (eventBus_on eventName handler bus))
            handlerEvents (eventBus st) \<rparr>"

text \<open>What \<^verbatim>\<open>run\<close> returns after processing: the content of the last assistant message,
  or the empty string when the conversation has none.\<close>

definition lastAssistantContent :: "ConversationManager \<Rightarrow> Content" where
  "lastAssistantContent c =
     (let assistantMessages = getMessagesByType ASSISTANT c
      in if length assistantMessages > 0
         then content (assistantMessages ! (length assistantMessages - 1))
         else Text '''')"

definition run :: "nat \<Rightarrow> string \<Rightarrow> 'w Agent \<Rightarrow> 'w AgentState \<Rightarrow> (Content, 'w) outcome" where
  "run n input agent st =
     (case emitEvent agent ''userSent'' (MessageEvent input)
             (st\<lparr> conversation := addUserMessage input (conversation st) \<rparr>) of
        (Inl e, st1) \<Rightarrow> Some (Inl e, st1)
      | (Inr u, st1) \<Rightarrow>
          (case processConversation n agent st1 of
             None \<Rightarrow> None
           | Some (Inl e, st2) \<Rightarrow> Some (Inl e, st2)
           | Some (Inr u, st2) \<Rightarrow> Some (Inr (lastAssistantContent (conversation st2)), st2)))"

definition handleToolConfirmation ::
  "nat \<Rightarrow> string \<Rightarrow> bool \<Rightarrow> 'w Agent \<Rightarrow> 'w AgentState \<Rightarrow> (unit, 'w) outcome" where
  "handleToolConfirmation n tid confirmed agent st =
     (if confirmed then executeValidatedTool n (Some tid) agent st
      else processConversation n agent
             (st\<lparr> conversation :=
                addUserMessage ''No, do not execute this tool. Lets do something else.''
                  (addToolResultMessage (Some tid)
                     (JObj [(''error'', JStr ''Tool use was cancelled by the user.'')])
                     (JStr ''Tool use was cancelled by the user.'')
                     (conversation st)) \<rparr>))"

text \<open>The getter \<^verbatim>\<open>messages\<close>.\<close>

definition agent_messages :: "'w AgentState \<Rightarrow> Message list" where
  "agent_messages st = getAllMessages (conversation st)"

definition shutdown :: "'w AgentState \<Rightarrow> 'w AgentState" where
  "shutdown st = st\<lparr> eventBus := clearAllListeners (eventBus st) \<rparr>"
section \<open>Example collaborators\<close>

text \<open>
  Concrete tools, LLM services and handlers, used to run the model. The world of these
  examples is the number of times the model was invoked.
\<close>

definition acceptingTool :: "string \<Rightarrow> bool \<Rightarrow> 'w Tool" where
  "acceptingTool name confirm =
     \<lparr> getName = name,
       validate = (\<lambda>params w. (Inr \<lparr> ok = True, validation_error = JUndefined \<rparr>, w)),
       requiresAcceptance = (\<lambda>params w. (Inr confirm, w)) \<rparr>"

definition rejectingTool :: "string \<Rightarrow> string \<Rightarrow> 'w Tool" where
  "rejectingTool name why =
     \<lparr> getName = name,
       validate = (\<lambda>params w. (Inr \<lparr> ok = False, validation_error = JStr why \<rparr>, w)),
       requiresAcceptance = (\<lambda>params w. (Inr False, w)) \<rparr>"

text \<open>An LLM service that answers its first invocation with the given tool calls and every
  later one with the text \<open>done\<close>, and whose tools return \<open>{value: 'ok'}\<close>.\<close>

definition toolThenDone :: "ToolCall list \<Rightarrow> nat LLM" where
  "toolThenDone toolCalls =
     \<lparr> registerTools = (\<lambda>ts w. w),
       invokeModel = (\<lambda>msgs w.
         (Inr (if w = 0 then ASSISTANT_TOOL_REQUEST toolCalls else ASSISTANT_CONTENT ''done''),
          Suc w)),
       processToolCalls = (\<lambda>calls w.
         (Inr (map (\<lambda>toolUse. \<lparr> res_toolUseId = tc_toolUseId toolUse,
                                 res_content = JObj [(''value'', JStr ''ok'')] \<rparr>) calls),
          w)) \<rparr>"

definition call :: "string \<Rightarrow> string \<Rightarrow> ToolCall" where
  "call tid name = \<lparr> tc_toolUseId = tid, tc_name = name, tc_input = JObj [] \<rparr>"

text \<open>What an outcome shows to an observer: how the call ended, the kinds and tool-use
  identifiers of the log, and the trace.\<close>

definition kinds :: "'w AgentState \<Rightarrow> (MessageType \<times> string option) list" where
  "kinds st = map (\<lambda>m. (msg_type m, toolUseId m)) (getAllMessages (conversation st))"

text \<open>A trace entry in short: the event's name, or the collaborator's method followed by
  the tool-use identifiers it was given.\<close>

fun effectName :: "Effect \<Rightarrow> string list" where
  "effectName (Emitted eventName d) = [''emit'', eventName]"
| "effectName (ModelInvoked msgs) = [''invokeModel'']"
| "effectName (ToolCallsProcessed calls) = ''processToolCalls'' # map tc_toolUseId calls"

definition observe ::
  "('a, 'w) outcome \<Rightarrow>
   ((Thrown + 'a) \<times> (MessageType \<times> string option) list \<times> string list list) option" where
  "observe out = map_option (\<lambda>(r, st). (r, kinds st, map effectName (trace st))) out"

text \<open>What a message of the log carries: its kind, its tool-use identifier, its content
  and its error.\<close>

definition carried :: "Message \<Rightarrow> MessageType \<times> string option \<times> Content \<times> Json" where
  "carried m = (msg_type m, toolUseId m, content m, error m)"

text \<open>
  Function objects for a bus whose world is the list of the tags of the callbacks that
  ran: callbacks 0, 1 and 3 record a tag, callback 2 throws, and callback 4 records a tag
  and unsubscribes itself from the array at address 2.
\<close>

definition recording :: "string \<Rightarrow> ('d, unit, string list) callback" where
  "recording tag = (\<lambda>d bus w. (Inr (), bus, w @ [tag]))"

definition failing :: "string \<Rightarrow> ('d, unit, 'w) callback" where
  "failing why = (\<lambda>d bus w. (Inl (Error why), bus, w))"

definition leaving :: "Unsubscribe \<Rightarrow> string \<Rightarrow> ('d, unit, string list) callback" where
  "leaving off tag = (\<lambda>d bus w. (Inr (), unsubscribe off bus, w @ [tag]))"

definition exampleFunctions :: "nat \<Rightarrow> (unit, unit, string list) callback" where
  "exampleFunctions cb =
     (if cb = 0 then recording ''first''
      else if cb = 1 then recording ''second''
      else if cb = 2 then failing ''boom''
      else if cb = 3 then recording ''third''
      else leaving (Unsubscribe 2 4) ''leaver'')"

text \<open>A bus with callbacks 0 and 1 on \<open>opened\<close> (the array at address 0), callbacks 0, 2
  and 3 on \<open>saved\<close> (address 1), and callbacks 4 and 1 on \<open>closed\<close> (address 2).\<close>

definition exampleBus :: EventBus where
  "exampleBus =
     fold (\<lambda>(eventName, cb) bus. snd (eventBus_on eventName cb bus))
       [(''opened'', 0), (''opened'', 1), (''saved'', 0), (''saved'', 2), (''saved'', 3),
        (''closed'', 4), (''closed'', 1)]
       newEventBus"

text \<open>An LLM service that always answers with the text \<open>done\<close> (its tools return
  \<open>{value: 'ok'}\<close>), and one whose model is down.\<close>

definition alwaysDone :: "nat LLM" where
  "alwaysDone =
     \<lparr> registerTools = (\<lambda>ts w. w),
       invokeModel = (\<lambda>msgs w. (Inr (ASSISTANT_CONTENT ''done''), Suc w)),
       processToolCalls = (\<lambda>calls w.
         (Inr (map (\<lambda>toolUse. \<lparr> res_toolUseId = tc_toolUseId toolUse,
                                 res_content = JObj [(''value'', JStr ''ok'')] \<rparr>) calls),
          w)) \<rparr>"

definition modelDown :: "nat LLM" where
  "modelDown =
     \<lparr> registerTools = (\<lambda>ts w. w),
       invokeModel = (\<lambda>msgs w. (Inl (Error ''model is down''), Suc w)),
       processToolCalls = (\<lambda>calls w. (Inr [], w)) \<rparr>"

text \<open>An LLM service whose model requests the given tool calls first and answers
  \<open>done\<close> afterwards, and whose \<open>processToolCalls\<close> fails.\<close>

definition toolsDown :: "ToolCall list \<Rightarrow> nat LLM" where
  "toolsDown toolCalls =
     \<lparr> registerTools = (\<lambda>ts w. w),
       invokeModel = (\<lambda>msgs w.
         (Inr (if w = 0 then ASSISTANT_TOOL_REQUEST toolCalls else ASSISTANT_CONTENT ''done''),
          Suc w)),
       processToolCalls = (\<lambda>toolUses w. (Inl (Error ''disk full''), w)) \<rparr>"

text \<open>An LLM service whose model invocation is rejected with no reason
  (\<^verbatim>\<open>Promise.reject()\<close>).\<close>

definition modelRejects :: "nat LLM" where
  "modelRejects =
     \<lparr> registerTools = (\<lambda>ts w. w),
       invokeModel = (\<lambda>msgs w. (Inl (Value JUndefined), Suc w)),
       processToolCalls = (\<lambda>toolUses w. (Inr [], w)) \<rparr>"

text \<open>Handlers on the world of these examples: one that returns, one that throws.\<close>

definition quietHandler :: "(EventData, unit, nat) callback" where
  "quietHandler = (\<lambda>d bus w. (Inr (), bus, w))"

definition throwingHandler :: "(EventData, unit, nat) callback" where
  "throwingHandler = (\<lambda>d bus w. (Inl (Error ''handler failed''), bus, w))"

text \<open>What \<open>createAgent\<close> returns for a system prompt, an LLM service and tools, with no
  initial messages, \<open>acceptAll\<close> left out, and the world at 0. Every function object is a
  handler that returns.\<close>

definition agentOf :: "nat Tool list \<Rightarrow> nat LLM \<Rightarrow> nat Agent" where
  "agentOf ts service =
     \<lparr> llm = service, tools = ts, acceptAll = False, callbacks = (\<lambda>cb. quietHandler) \<rparr>"

text \<open>The same agent where the function object of identity 1 is a handler that throws.\<close>

definition withThrowingHandler :: "nat Agent \<Rightarrow> nat Agent" where
  "withThrowingHandler agent =
     agent\<lparr> callbacks := (\<lambda>cb. if cb = 1 then throwingHandler else quietHandler) \<rparr>"

definition startState :: "nat AgentState" where
  "startState =
     \<lparr> conversation = initialize ''You are helpful'' [], eventBus = newEventBus,
       world = 0, trace = [] \<rparr>"

text \<open>An agent with one tool, \<open>calculator\<close>, whose \<open>requiresAcceptance\<close> is true for every
  input, and an LLM service that first requests a call \<open>t1\<close> of it.\<close>

definition calculatorAgent :: "nat Agent" where
  "calculatorAgent =
     agentOf [acceptingTool ''calculator'' True] (toolThenDone [call ''t1'' ''calculator''])"

text \<open>The state of a conversation whose log ends with a request \<open>t1\<close> for the tool
  \<open>fs_write\<close>, not answered yet.\<close>

definition requestedState :: "nat AgentState" where
  "requestedState =
     startState\<lparr> conversation :=
       addToolRequestMessage ''fs_write'' ''t1'' (JObj []) (conversation startState) \<rparr>"

text \<open>The state of a conversation in which the assistant has answered once.\<close>

definition answeredState :: "nat AgentState" where
  "answeredState =
     startState\<lparr> conversation :=
       addAssistantMessage ''an earlier answer'' (conversation startState) \<rparr>"

section \<open>Properties of logs, handlers and services\<close>

text \<open>The result of a call of a callback, when it returned.\<close>

definition resultOf :: "'r Call \<Rightarrow> 'r option" where
  "resultOf c = (case outcome c of Inl e \<Rightarrow> None | Inr r \<Rightarrow> Some r)"


text \<open>The thrown value has a message to read: it is not \<^verbatim>\<open>undefined\<close> or \<^verbatim>\<open>null\<close>.\<close>

definition hasMessage :: "Thrown \<Rightarrow> bool" where
  "hasMessage e = (\<not> isl (messageOf e))"


text \<open>The log holds a tool-request message with this tool-use identifier.\<close>

definition hasRequest :: "string option \<Rightarrow> Message list \<Rightarrow> bool" where
  "hasRequest tid msgs = list_ex (\<lambda>m. msg_type m = TOOL_REQUEST \<and> toolUseId m = tid) msgs"

text \<open>Every tool-result message has a tool-request message with the same tool-use
  identifier earlier in the log.\<close>

definition resultsHaveRequests :: "Message list \<Rightarrow> bool" where
  "resultsHaveRequests msgs =
     (\<forall>i < length msgs. msg_type (msgs ! i) = TOOL_RESULT \<longrightarrow>
        (\<exists>j < i. msg_type (msgs ! j) = TOOL_REQUEST \<and>
                 toolUseId (msgs ! j) = toolUseId (msgs ! i)))"

text \<open>No tool-use identifier has more than one tool-result message.\<close>

definition oneResultPerToolUse :: "Message list \<Rightarrow> bool" where
  "oneResultPerToolUse msgs =
     distinct (map toolUseId (filter (\<lambda>m. msg_type m = TOOL_RESULT) msgs))"

text \<open>A tool-request message as \<open>addToolRequestMessage\<close> builds it: its content is the
  tool use, whose identifier is the message's.\<close>

definition builtRequest :: "Message \<Rightarrow> bool" where
  "builtRequest m =
     (if msg_type m = TOOL_REQUEST
      then (case content m of
              ToolUse toolUse \<Rightarrow> toolUseId m = Some (tc_toolUseId toolUse)
            | _ \<Rightarrow> False)
      else True)"

definition builtRequests :: "Message list \<Rightarrow> bool" where
  "builtRequests msgs = list_all builtRequest msgs"

text \<open>An LLM service whose \<open>processToolCalls\<close> answers with results for the tool uses it
  was given, and no other.\<close>

definition answersWhatWasAsked :: "'w LLM \<Rightarrow> bool" where
  "answersWhatWasAsked service =
     (\<forall>calls w results w'.
        processToolCalls service calls w = (Inr results, w') \<longrightarrow>
        list_all (\<lambda>res. res_toolUseId res \<in> set (map tc_toolUseId calls)) results)"

text \<open>
  A call of the agent's public API by its user: \<^verbatim>\<open>run(input)\<close> and
  \<^verbatim>\<open>handleToolConfirmation(toolUseId, confirmed)\<close>, each with the fuel it is given,
  \<^verbatim>\<open>on(handlers)\<close> with the handlers by key, and \<^verbatim>\<open>shutdown()\<close>.
\<close>

datatype ApiCall =
    Run nat string
  | Confirm nat string bool
  | Subscribe "(string \<times> nat) list"
  | Shutdown

text \<open>The state a call leaves when it has settled, whether it returned or threw; \<open>None\<close>
  when it does not settle within its fuel.\<close>

fun apiCall :: "'w Agent \<Rightarrow> ApiCall \<Rightarrow> 'w AgentState \<Rightarrow> 'w AgentState option" where
  "apiCall agent (Run n input) st = map_option snd (run n input agent st)"
| "apiCall agent (Confirm n tid confirmed) st =
     map_option snd (handleToolConfirmation n tid confirmed agent st)"
| "apiCall agent (Subscribe handlers) st = Some (agent_on (map_of handlers) st)"
| "apiCall agent Shutdown st = Some (shutdown st)"

text \<open>The state after a sequence of calls, each made when the one before has settled.\<close>

fun afterCalls :: "'w Agent \<Rightarrow> ApiCall list \<Rightarrow> 'w AgentState \<Rightarrow> 'w AgentState option" where
  "afterCalls agent [] st = Some st"
| "afterCalls agent (c # rest) st =
     (case apiCall agent c st of
        None \<Rightarrow> None
      | Some st' \<Rightarrow> afterCalls agent rest st')"

text \<open>In this sequence of calls, a tool use is declined only when the log holds a request
  for it.\<close>

fun declinesRequested :: "'w Agent \<Rightarrow> ApiCall list \<Rightarrow> 'w AgentState \<Rightarrow> bool" where
  "declinesRequested agent [] st = True"
| "declinesRequested agent (c # rest) st =
     ((case c of
         Confirm n tid confirmed \<Rightarrow> confirmed \<or> hasRequest (Some tid) (agent_messages st)
       | _ \<Rightarrow> True) \<and>
      (case apiCall agent c st of
         None \<Rightarrow> True
       | Some st' \<Rightarrow> declinesRequested agent rest st'))"

text \<open>How a state follows another while the agent processes: the log and the trace are
  extended, and with a service that answers what it was asked, a log of built requests
  whose results have requests stays one.\<close>

definition logInvariant :: "'w AgentState \<Rightarrow> bool" where
  "logInvariant st =
     (builtRequests (agent_messages st) \<and> resultsHaveRequests (agent_messages st))"

definition grows :: "'w Agent \<Rightarrow> 'w AgentState \<Rightarrow> 'w AgentState \<Rightarrow> bool" where
  "grows agent st st' =
     (prefix (agent_messages st) (agent_messages st') \<and> prefix (trace st) (trace st') \<and>
      (answersWhatWasAsked (llm agent) \<and> logInvariant st \<longrightarrow> logInvariant st'))"

text \<open>The tool call names a tool of the agent.\<close>

definition registered :: "'w Agent \<Rightarrow> ToolCall \<Rightarrow> bool" where
  "registered agent toolCall =
     (find (\<lambda>x. getName x = tc_name toolCall) (tools agent) \<noteq> None)"

section \<open>Facts about the message log\<close>

lemma fold_max_upper: "i \<in> set xs \<Longrightarrow> i \<le> fold max xs (b::nat)"
proof (induction xs arbitrary: b)
  case Nil
  then show ?case by simp
next
  case (Cons x xs)
  have mono: "b \<le> fold max xs b" for b :: nat and xs
    by (induction xs arbitrary: b) (auto intro: order_trans [OF max.cobounded2])
  from Cons show ?case
    by (auto intro: order_trans [OF max.cobounded1 mono])
qed

lemma randomUUID_fresh: "randomUUID c \<notin> set (messageOrder c)"
  using fold_max_upper [of "randomUUID c" "messageOrder c" 0]
  by (auto simp: randomUUID_def)

lemma getAllMessages_addMessage:
  "msg_id m \<notin> set (messageOrder c) \<Longrightarrow> getAllMessages (addMessage m c) = getAllMessages c @ [m]"
  by (auto simp: getAllMessages_def addMessage_def)

lemma getAllMessages_new [simp]: "getAllMessages newConversationManager = []"
  by (simp add: getAllMessages_def newConversationManager_def)

lemma getAllMessages_addSystemMessage [simp]:
  "getAllMessages (addSystemMessage t c) = getAllMessages c @ [systemMessage (randomUUID c) t]"
  by (simp add: addSystemMessage_def getAllMessages_addMessage randomUUID_fresh systemMessage_def)

lemma getAllMessages_addUserMessage [simp]:
  "getAllMessages (addUserMessage t c) = getAllMessages c @ [userMessage (randomUUID c) t]"
  by (simp add: addUserMessage_def getAllMessages_addMessage randomUUID_fresh userMessage_def)

lemma getAllMessages_addAssistantMessage [simp]:
  "getAllMessages (addAssistantMessage t c) =
     getAllMessages c @ [assistantMessage (randomUUID c) t]"
  by (simp add: addAssistantMessage_def getAllMessages_addMessage randomUUID_fresh
      assistantMessage_def)

lemma getAllMessages_addToolRequestMessage [simp]:
  "getAllMessages (addToolRequestMessage name tid inp c) =
     getAllMessages c @ [toolRequestMessage (randomUUID c) name tid inp]"
  by (simp add: addToolRequestMessage_def getAllMessages_addMessage randomUUID_fresh
      toolRequestMessage_def)

lemma getAllMessages_addToolResultMessage [simp]:
  "getAllMessages (addToolResultMessage tid body err c) =
     getAllMessages c @ [toolResultMessage (randomUUID c) tid body err]"
  by (simp add: addToolResultMessage_def getAllMessages_addMessage randomUUID_fresh
      toolResultMessage_def)

lemma getAllMessages_addInfoMessage [simp]:
  "getAllMessages (addInfoMessage t c) = getAllMessages c @ [infoMessage (randomUUID c) t]"
  by (simp add: addInfoMessage_def getAllMessages_addMessage randomUUID_fresh infoMessage_def)

lemma getLastMessage_addMessage [simp]: "getLastMessage (addMessage m c) = Some m"
  by (simp add: getLastMessage_def addMessage_def nth_append)

lemma getNextAction_after_add [simp]:
  "getNextAction (addSystemMessage t c) = WAIT_FOR_LOCAL_USER_INPUT"
  "getNextAction (addUserMessage t c) = SEND_USER_INPUT_TO_LLM"
  "getNextAction (addAssistantMessage t c) = WAIT_FOR_LOCAL_USER_INPUT"
  "getNextAction (addToolRequestMessage name tid inp c) = EXECUTE_LOCAL_TOOL"
  "getNextAction (addToolResultMessage tid' body err c) = SEND_TOOL_RESULT_TO_LLM"
  by (simp_all add: getNextAction_def addSystemMessage_def addUserMessage_def
      addAssistantMessage_def addToolRequestMessage_def addToolResultMessage_def
      systemMessage_def userMessage_def assistantMessage_def toolRequestMessage_def
      toolResultMessage_def)

lemma getLastMessage_stored:
  assumes "storedAll c"
  shows "getLastMessage c =
    (if getAllMessages c = [] then None else Some (last (getAllMessages c)))"
proof (cases "messageOrder c = []")
  case True
  then show ?thesis by (simp add: getLastMessage_def getAllMessages_def)
next
  case False
  then have "last (messageOrder c) \<in> set (messageOrder c)" by simp
  with assms have "messages c (last (messageOrder c)) \<noteq> None"
    by (simp add: storedAll_def list_all_iff)
  with False show ?thesis
    by (auto simp: getLastMessage_def getAllMessages_def last_map last_conv_nth)
qed

lemma previousNonInfo_take:
  "k \<le> length msgs \<Longrightarrow>
   specOf (previousNonInfo msgs k) = specNextAction (map msg_type (take k msgs))"
proof (induction k)
  case 0
  then show ?case by (simp add: specNextAction_def)
next
  case (Suc k)
  then have k: "k < length msgs" by simp
  then have tk: "take (Suc k) msgs = take k msgs @ [msgs ! k]"
    by (simp add: take_Suc_conv_app_nth)
  show ?case
  proof (cases "msg_type (msgs ! k) = INFO")
    case True
    with Suc k tk show ?thesis by (simp add: specNextAction_def)
  next
    case False
    with tk show ?thesis
      by (cases "msg_type (msgs ! k)") (simp_all add: specNextAction_def getNextActionForType_def)
  qed
qed


lemma storedAll_addMessage: "storedAll c \<Longrightarrow> storedAll (addMessage m c)"
  by (auto simp: storedAll_def addMessage_def list_all_iff)

lemma storedAll_new: "storedAll newConversationManager"
  by (simp add: storedAll_def newConversationManager_def)

section \<open>The next action (claim C4)\<close>

text \<open>
  Claim C4. For every message log, the next action is a function of the kind of the most
  recent message that is not \<open>info\<close>: an empty log or a \<open>system\<close> tail awaits the user, a
  \<open>user\<close> tail invokes the model, an \<open>assistant\<close> tail awaits the user, a \<open>tool-request\<close>
  tail runs the tool, a \<open>tool-result\<close> tail invokes the model, and trailing \<open>info\<close>
  messages are skipped (a log of \<open>info\<close> messages only awaits the user). The code's
  \<open>getNextAction\<close> computes the specification's table \<open>specNextAction\<close> on the kinds of
  the log.
\<close>

theorem getNextAction_is_spec_table:
  assumes "storedAll c"
  shows "specOf (getNextAction c) = specNextAction (map msg_type (getAllMessages c))"
proof (cases "getAllMessages c = []")
  case True
  with assms show ?thesis
    by (simp add: getNextAction_def getLastMessage_stored specNextAction_def)
next
  case False
  define msgs where "msgs = getAllMessages c"
  from False have ne: "msgs \<noteq> []" by (simp add: msgs_def)
  then have split: "msgs = butlast msgs @ [last msgs]" by simp
  have lastm: "getLastMessage c = Some (last msgs)"
    using assms False by (simp add: getLastMessage_stored msgs_def)
  have kinds: "map msg_type msgs = map msg_type (butlast msgs) @ [msg_type (last msgs)]"
    by (subst split) simp
  show ?thesis
  proof (cases "msg_type (last msgs) = INFO")
    case True
    have "specOf (previousNonInfo msgs (length msgs - 1)) =
          specNextAction (map msg_type (take (length msgs - 1) msgs))"
      by (rule previousNonInfo_take) simp
    also have "take (length msgs - 1) msgs = butlast msgs"
      by (simp add: butlast_conv_take)
    also have "specNextAction (map msg_type (butlast msgs)) = specNextAction (map msg_type msgs)"
      using True by (simp add: kinds specNextAction_def)
    finally show ?thesis
      using True lastm by (simp add: getNextAction_def msgs_def)
  next
    case False
    then show ?thesis
      using lastm
      by (cases "msg_type (last msgs)")
         (simp_all add: getNextAction_def kinds specNextAction_def flip: msgs_def)
  qed
qed

theorem getNextAction_is_spec_table_witness:
  "storedAll (addInfoMessage ''note'' (addUserMessage ''hi''
      (addSystemMessage ''be helpful'' newConversationManager))) \<and>
   specOf (getNextAction (addInfoMessage ''note'' (addUserMessage ''hi''
      (addSystemMessage ''be helpful'' newConversationManager)))) = InvokeModel"
proof -
  let ?c = "addInfoMessage ''note'' (addUserMessage ''hi''
      (addSystemMessage ''be helpful'' newConversationManager))"
  have s: "storedAll ?c"
    by (simp add: addInfoMessage_def addUserMessage_def addSystemMessage_def
        storedAll_addMessage storedAll_new)
  show ?thesis
    using s getNextAction_is_spec_table [OF s]
    by (simp add: specNextAction_def infoMessage_def userMessage_def systemMessage_def)
qed


subsection \<open>Facts about emit\<close>

lemma mapCallbacks_outcome:
  "(\<forall>e. emitted (mapCallbacks behaviours a k todo d bus w) = Inl e \<longrightarrow>
      (\<exists>pre c. callsMade (mapCallbacks behaviours a k todo d bus w) = pre @ [c] \<and>
               outcome c = Inl e \<and> list_all (\<lambda>c. \<not> isl (outcome c)) pre)) \<and>
   (\<forall>rs. emitted (mapCallbacks behaviours a k todo d bus w) = Inr rs \<longrightarrow>
      length rs = todo \<and>
      list_all (\<lambda>c. \<not> isl (outcome c)) (callsMade (mapCallbacks behaviours a k todo d bus w)) \<and>
      map resultOf (callsMade (mapCallbacks behaviours a k todo d bus w)) =
        filter (\<lambda>r. r \<noteq> None) rs)"
proof (induction todo arbitrary: k bus w)
  case 0
  show ?case by simp
next
  case (Suc todo)
  show ?case
  proof (cases "k < length (arrays bus a)")
    case False
    with Suc [of "Suc k" bus w] show ?thesis
      by (cases "emitted (mapCallbacks behaviours a (Suc k) todo d bus w)")
         (auto simp: Let_def)
  next
    case True
    obtain r bus1 w1 where c: "behaviours (arrays bus a ! k) d bus w = (r, bus1, w1)"
      by (cases "behaviours (arrays bus a ! k) d bus w")
    show ?thesis
    proof (cases r)
      case (Inl e)
      with True c show ?thesis by simp
    next
      case (Inr v)
      with True c Suc [of "Suc k" bus1 w1] show ?thesis
        by (cases "emitted (mapCallbacks behaviours a (Suc k) todo d bus1 w1)")
           (auto simp: Let_def resultOf_def Cons_eq_append_conv)
    qed
  qed
qed

lemma mapCallbacks_order:
  assumes "prefix cbs (arrays bus a)" and "k + todo = length cbs"
    and "list_all (\<lambda>c. prefix cbs (listenersAfter c))
           (callsMade (mapCallbacks behaviours a k todo d bus w))"
  shows "prefix (map callee (callsMade (mapCallbacks behaviours a k todo d bus w)))
           (drop k cbs) \<and>
         (\<forall>rs. emitted (mapCallbacks behaviours a k todo d bus w) = Inr rs \<longrightarrow>
            map callee (callsMade (mapCallbacks behaviours a k todo d bus w)) = drop k cbs \<and>
            rs = map resultOf (callsMade (mapCallbacks behaviours a k todo d bus w)))"
  using assms
proof (induction todo arbitrary: k bus w)
  case 0
  then show ?case by simp
next
  case (Suc todo)
  from Suc.prems(2) have k: "k < length cbs" by simp
  with Suc.prems(1) have inside: "k < length (arrays bus a)"
    by (auto simp: prefix_def)
  from Suc.prems(1) k have elem: "arrays bus a ! k = cbs ! k"
    by (auto simp: prefix_def nth_append)
  have dropk: "drop k cbs = cbs ! k # drop (Suc k) cbs"
    using k by (simp add: Cons_nth_drop_Suc)
  obtain r bus1 w1 where c: "behaviours (arrays bus a ! k) d bus w = (r, bus1, w1)"
    by (cases "behaviours (arrays bus a ! k) d bus w")
  show ?case
  proof (cases r)
    case (Inl e)
    with inside c elem dropk show ?thesis by simp
  next
    case (Inr v)
    from Suc.prems(3) inside c Inr
    have kept: "prefix cbs (arrays bus1 a)"
      and rest: "list_all (\<lambda>c. prefix cbs (listenersAfter c))
           (callsMade (mapCallbacks behaviours a (Suc k) todo d bus1 w1))"
      by (simp_all add: Let_def)
    from Suc.prems(2) have "Suc k + todo = length cbs" by simp
    from Suc.IH [OF kept this rest] inside c Inr elem dropk show ?thesis
      by (cases "emitted (mapCallbacks behaviours a (Suc k) todo d bus1 w1)")
         (auto simp: Let_def resultOf_def)
  qed
qed


section \<open>The event bus (claim C7)\<close>

lemma exampleBus_eval:
  "listeners exampleBus ''opened'' = Some 0" "arrays exampleBus 0 = [0, 1]"
  "listeners exampleBus ''saved'' = Some (Suc 0)" "arrays exampleBus (Suc 0) = [0, 2, 3]"
  "listeners exampleBus ''closed'' = Some 2" "arrays exampleBus 2 = [4, 1]"
  "listeners exampleBus ''unknown'' = None"
  by (simp_all add: exampleBus_def eventBus_on_def newEventBus_def Let_def)

lemma emit_saved:
  "emit exampleFunctions exampleBus ''saved'' () [] =
     \<lparr> emitted = Inl (Error ''boom''),
       callsMade = [\<lparr> callee = 0, outcome = Inr (), listenersAfter = [0, 2, 3] \<rparr>,
                    \<lparr> callee = 2, outcome = Inl (Error ''boom''), listenersAfter = [0, 2, 3] \<rparr>],
       busAfter = exampleBus, worldAfter = [''first''] \<rparr>"
  by (simp add: emit_def exampleBus_eval exampleFunctions_def recording_def failing_def
      Let_def)

lemma emit_opened:
  "emit exampleFunctions exampleBus ''opened'' () [] =
     \<lparr> emitted = Inr [Some (), Some ()],
       callsMade = [\<lparr> callee = 0, outcome = Inr (), listenersAfter = [0, 1] \<rparr>,
                    \<lparr> callee = 1, outcome = Inr (), listenersAfter = [0, 1] \<rparr>],
       busAfter = exampleBus, worldAfter = [''first'', ''second''] \<rparr>"
  by (simp add: emit_def exampleBus_eval exampleFunctions_def recording_def failing_def
      Let_def)

lemma emit_closed:
  "emitted (emit exampleFunctions exampleBus ''closed'' () []) = Inr [Some (), None]"
  "map callee (callsMade (emit exampleFunctions exampleBus ''closed'' () [])) = [4]"
  "worldAfter (emit exampleFunctions exampleBus ''closed'' () []) = [''leaver'']"
  "arrays (busAfter (emit exampleFunctions exampleBus ''closed'' () [])) 2 = [1]"
  by (simp_all add: emit_def exampleBus_eval exampleFunctions_def recording_def failing_def
      leaving_def Let_def)

text \<open>
  Claim C7, as amended. For every event name, payload, bus and behaviour of the callbacks:

  \<^item> When the Map has no array for the event, \<open>emit\<close> calls nothing and returns the empty
    array.
  \<^item> When \<open>emit\<close> throws, the last call it made is the one that threw what \<open>emit\<close>
    throws, and every call before it returned: the exception of a handler reaches the
    publisher, and no handler is called after it.
  \<^item> When \<open>emit\<close> returns, every call it made returned, and the array it returns has one
    entry per listener the event had when \<open>emit\<close> was called; the entries that are not
    holes are the results of the calls, in order.
  \<^item> Provided every call left the array of the event beginning with the listeners it had
    when \<open>emit\<close> was called (a handler may add listeners, but none removed one with the
    function \<open>on\<close> returned), the callbacks called are those listeners in the order of
    their subscription: all of them, each once, when \<open>emit\<close> returns, and those up to
    the one that threw otherwise.
\<close>

theorem emit_runs_in_order_until_a_throw:
  "(let emission = emit behaviours bus eventName d w in
     (listeners bus eventName = None \<longrightarrow>
        emitted emission = Inr [] \<and> callsMade emission = []) \<and>
     (\<forall>e. emitted emission = Inl e \<longrightarrow>
        (\<exists>pre c. callsMade emission = pre @ [c] \<and> outcome c = Inl e \<and>
                 list_all (\<lambda>c. \<not> isl (outcome c)) pre)) \<and>
     (\<forall>a rs. listeners bus eventName = Some a \<and> emitted emission = Inr rs \<longrightarrow>
        length rs = length (arrays bus a) \<and>
        list_all (\<lambda>c. \<not> isl (outcome c)) (callsMade emission) \<and>
        map resultOf (callsMade emission) = filter (\<lambda>r. r \<noteq> None) rs) \<and>
     (\<forall>a. listeners bus eventName = Some a \<and>
          list_all (\<lambda>c. prefix (arrays bus a) (listenersAfter c)) (callsMade emission) \<longrightarrow>
        prefix (map callee (callsMade emission)) (arrays bus a) \<and>
        (\<forall>rs. emitted emission = Inr rs \<longrightarrow>
           map callee (callsMade emission) = arrays bus a \<and>
           rs = map resultOf (callsMade emission))))"
proof (cases "listeners bus eventName")
  case None
  then show ?thesis by (simp add: emit_def)
next
  case (Some a)
  show ?thesis
  proof (cases "arrays bus a = []")
    case True
    with Some show ?thesis by (simp add: emit_def)
  next
    case False
    define emission where
      "emission = mapCallbacks behaviours a 0 (length (arrays bus a)) d bus w"
    have e: "emit behaviours bus eventName d w = emission"
      using Some False by (simp add: emit_def emission_def)
    note ended = mapCallbacks_outcome
      [where behaviours = behaviours and a = a and k = 0 and todo = "length (arrays bus a)"
         and d = d and bus = bus and w = w, folded emission_def]
    have ordered: "prefix (map callee (callsMade emission)) (arrays bus a) \<and>
        (\<forall>rs. emitted emission = Inr rs \<longrightarrow>
           map callee (callsMade emission) = arrays bus a \<and>
           rs = map resultOf (callsMade emission))"
      if "list_all (\<lambda>c. prefix (arrays bus a) (listenersAfter c)) (callsMade emission)"
      using mapCallbacks_order [where cbs = "arrays bus a" and bus = bus and a = a and k = 0
          and todo = "length (arrays bus a)" and behaviours = behaviours and d = d and w = w,
          folded emission_def] that
      by simp
    show ?thesis
      unfolding e Let_def using Some ended ordered by simp
  qed
qed

theorem emit_runs_in_order_until_a_throw_witness:
  "listeners exampleBus ''opened'' = Some 0 \<and>
   list_all (\<lambda>c. prefix (arrays exampleBus 0) (listenersAfter c))
     (callsMade (emit exampleFunctions exampleBus ''opened'' () [])) \<and>
   emitted (emit exampleFunctions exampleBus ''opened'' () []) = Inr [Some (), Some ()] \<and>
   map callee (callsMade (emit exampleFunctions exampleBus ''opened'' () [])) = [0, 1] \<and>
   worldAfter (emit exampleFunctions exampleBus ''opened'' () []) = [''first'', ''second''] \<and>
   listeners exampleBus ''saved'' = Some 1 \<and>
   list_all (\<lambda>c. prefix (arrays exampleBus 1) (listenersAfter c))
     (callsMade (emit exampleFunctions exampleBus ''saved'' () [])) \<and>
   emitted (emit exampleFunctions exampleBus ''saved'' () []) = Inl (Error ''boom'') \<and>
   prefix (map callee (callsMade (emit exampleFunctions exampleBus ''saved'' () [])))
     [0, 2, 3] \<and>
   listeners exampleBus ''unknown'' = None \<and>
   emitted (emit exampleFunctions exampleBus ''unknown'' () []) = Inr [] \<and>
   callsMade (emit exampleFunctions exampleBus ''unknown'' () []) = []"
proof -
  have opened: "listeners exampleBus ''opened'' = Some 0"
    and saved: "listeners exampleBus ''saved'' = Some 1"
    and unknown: "listeners exampleBus ''unknown'' = None"
    by (simp_all add: exampleBus_eval)
  have kept_opened: "list_all (\<lambda>c. prefix (arrays exampleBus 0) (listenersAfter c))
      (callsMade (emit exampleFunctions exampleBus ''opened'' () []))"
    by (simp add: emit_opened exampleBus_eval)
  have kept_saved: "list_all (\<lambda>c. prefix (arrays exampleBus 1) (listenersAfter c))
      (callsMade (emit exampleFunctions exampleBus ''saved'' () []))"
    by (simp add: emit_saved exampleBus_eval)
  have returned: "emitted (emit exampleFunctions exampleBus ''opened'' () []) =
      Inr [Some (), Some ()]"
    and threw: "emitted (emit exampleFunctions exampleBus ''saved'' () []) =
      Inl (Error ''boom'')"
    and ran: "worldAfter (emit exampleFunctions exampleBus ''opened'' () []) =
      [''first'', ''second'']"
    by (simp_all add: emit_opened emit_saved)
  note at_opened = emit_runs_in_order_until_a_throw
    [of exampleFunctions exampleBus "''opened''" "()" "[]", unfolded Let_def]
  note at_saved = emit_runs_in_order_until_a_throw
    [of exampleFunctions exampleBus "''saved''" "()" "[]", unfolded Let_def]
  note at_unknown = emit_runs_in_order_until_a_throw
    [of exampleFunctions exampleBus "''unknown''" "()" "[]", unfolded Let_def]
  from at_opened [THEN conjunct2, THEN conjunct2, THEN conjunct2, rule_format, of 0]
    opened kept_opened returned
  have all_called: "map callee (callsMade (emit exampleFunctions exampleBus ''opened'' () []))
      = [0, 1]"
    by (simp add: exampleBus_eval)
  from at_saved [THEN conjunct2, THEN conjunct2, THEN conjunct2, rule_format, of 1]
    saved kept_saved
  have in_order: "prefix (map callee (callsMade (emit exampleFunctions exampleBus ''saved'' () [])))
      [0, 2, 3]"
    by (simp add: exampleBus_eval)
  from at_unknown [THEN conjunct1] unknown
  have silent: "emitted (emit exampleFunctions exampleBus ''unknown'' () []) = Inr [] \<and>
      callsMade (emit exampleFunctions exampleBus ''unknown'' () []) = []"
    by simp
  show ?thesis
    by (intro conjI)
       (rule opened kept_opened returned all_called ran saved kept_saved threw in_order
          unknown silent [THEN conjunct1] silent [THEN conjunct2])+
qed

text \<open>
  Claim C7 as stated fails: with three handlers subscribed to \<open>saved\<close>, of which the second
  throws, \<open>emit\<close> throws that error to the publisher, and the third handler is not called
  (the calls are those of callbacks 0 and 2, and the world holds the first handler's tag
  only).
\<close>

theorem emit_throws_counterexample:
  "arrays exampleBus 1 = [0, 2, 3] \<and>
   emitted (emit exampleFunctions exampleBus ''saved'' () []) = Inl (Error ''boom'') \<and>
   map callee (callsMade (emit exampleFunctions exampleBus ''saved'' () [])) = [0, 2] \<and>
   worldAfter (emit exampleFunctions exampleBus ''saved'' () []) = [''first'']"
  by (simp add: emit_saved exampleBus_eval)

text \<open>
  A handler that unsubscribes itself while \<open>emit\<close> runs makes \<open>emit\<close> skip the handler
  subscribed after it, without any exception: \<open>closed\<close> has the listeners 4 and 1, callback
  4 removes itself from the array, the array is then too short for the index 1, and
  callback 1 is not called. The array \<open>emit\<close> returns has a hole.
\<close>

theorem emit_skips_listener_after_unsubscribe:
  "arrays exampleBus 2 = [4, 1] \<and>
   emitted (emit exampleFunctions exampleBus ''closed'' () []) = Inr [Some (), None] \<and>
   map callee (callsMade (emit exampleFunctions exampleBus ''closed'' () [])) = [4] \<and>
   worldAfter (emit exampleFunctions exampleBus ''closed'' () []) = [''leaver''] \<and>
   arrays (busAfter (emit exampleFunctions exampleBus ''closed'' () [])) 2 = [1]"
  by (simp add: emit_closed exampleBus_eval)
section \<open>Facts about the agent\<close>

subsection \<open>Reading the outcome of await and try/catch\<close>

lemma awaitE:
  assumes "await m rest = Some (r, st')"
  obtains (threw) e where "m = Some (Inl e, st')" "r = Inl e"
        | (returned) v st1 where "m = Some (Inr v, st1)" "rest v st1 = Some (r, st')"
  using assms by (auto simp: await_def split: option.splits prod.splits sum.splits)

lemma tryCatchE:
  assumes "tryCatch m handler = Some (r, st')"
  obtains (returned) v where "m = Some (Inr v, st')" "r = Inr v"
        | (caught) e st1 where "m = Some (Inl e, st1)" "handler e st1 = Some (r, st')"
  using assms by (auto simp: tryCatch_def split: option.splits prod.splits sum.splits)

lemma await_Some_Inr [simp]: "await (Some (Inr v, st)) rest = rest v st"
  by (simp add: await_def)

lemma await_Some_Inl [simp]: "await (Some (Inl e, st)) rest = Some (Inl e, st)"
  by (simp add: await_def)

lemma await_None [simp]: "await None rest = None"
  by (simp add: await_def)

lemma tryCatch_Some_Inr [simp]: "tryCatch (Some (Inr v, st)) handler = Some (Inr v, st)"
  by (simp add: tryCatch_def)

lemma tryCatch_Some_Inl [simp]: "tryCatch (Some (Inl e, st)) handler = handler e st"
  by (simp add: tryCatch_def)

lemma tryCatch_None [simp]: "tryCatch None handler = None"
  by (simp add: tryCatch_def)

subsection \<open>Logs whose results have requests\<close>

lemma hasRequest_iff:
  "hasRequest tid msgs \<longleftrightarrow>
   (\<exists>j < length msgs. msg_type (msgs ! j) = TOOL_REQUEST \<and> toolUseId (msgs ! j) = tid)"
  unfolding hasRequest_def list_ex_iff by (metis in_set_conv_nth)

lemma resultsHaveRequests_snoc:
  "resultsHaveRequests (xs @ [m]) \<longleftrightarrow>
   resultsHaveRequests xs \<and> (msg_type m = TOOL_RESULT \<longrightarrow> hasRequest (toolUseId m) xs)"
proof -
  define P where "P i y \<longleftrightarrow> (msg_type y = TOOL_RESULT \<longrightarrow>
      (\<exists>j<i. msg_type (xs ! j) = TOOL_REQUEST \<and> toolUseId (xs ! j) = toolUseId y))"
    for i and y :: Message
  have nth_old: "(xs @ [m]) ! j = xs ! j" if "j < length xs" for j
    using that by (simp add: nth_append)
  have old: "(\<exists>j<i. msg_type ((xs @ [m]) ! j) = TOOL_REQUEST \<and> toolUseId ((xs @ [m]) ! j) = t) \<longleftrightarrow>
             (\<exists>j<i. msg_type (xs ! j) = TOOL_REQUEST \<and> toolUseId (xs ! j) = t)"
    if "i \<le> length xs" for i t
    using that nth_old by auto
  have "resultsHaveRequests (xs @ [m]) \<longleftrightarrow> (\<forall>i < Suc (length xs). P i ((xs @ [m]) ! i))"
    unfolding resultsHaveRequests_def P_def using old by (simp add: less_Suc_eq_le)
  also have "\<dots> \<longleftrightarrow> (\<forall>i < length xs. P i ((xs @ [m]) ! i)) \<and> P (length xs) ((xs @ [m]) ! length xs)"
    using less_Suc_eq by auto
  also have "(\<forall>i < length xs. P i ((xs @ [m]) ! i)) \<longleftrightarrow> (\<forall>i < length xs. P i (xs ! i))"
    using nth_old by auto
  also have "\<dots> \<longleftrightarrow> resultsHaveRequests xs"
    by (simp add: resultsHaveRequests_def P_def)
  also have "P (length xs) ((xs @ [m]) ! length xs) \<longleftrightarrow>
      (msg_type m = TOOL_RESULT \<longrightarrow> hasRequest (toolUseId m) xs)"
    by (simp add: P_def hasRequest_iff)
  finally show ?thesis .
qed

lemma hasRequest_prefix: "hasRequest tid xs \<Longrightarrow> prefix xs ys \<Longrightarrow> hasRequest tid ys"
  by (auto simp: hasRequest_def list_ex_iff prefix_def)

lemma resultsHaveRequests_Nil [simp]: "resultsHaveRequests []"
  by (simp add: resultsHaveRequests_def)

lemma builtRequests_snoc [simp]:
  "builtRequests (xs @ [m]) \<longleftrightarrow> builtRequests xs \<and> builtRequest m"
  by (simp add: builtRequests_def)

lemma builtRequest_simps [simp]:
  "builtRequest (systemMessage i t)" "builtRequest (userMessage i t)"
  "builtRequest (assistantMessage i t)" "builtRequest (infoMessage i t)"
  "builtRequest (toolRequestMessage i name tid inp)"
  "builtRequest (toolResultMessage i tid' body err)"
  by (simp_all add: builtRequest_def systemMessage_def userMessage_def assistantMessage_def
      infoMessage_def toolRequestMessage_def toolResultMessage_def)

lemma msg_type_simps [simp]:
  "msg_type (systemMessage i t) = SYSTEM" "msg_type (userMessage i t) = USER"
  "msg_type (assistantMessage i t) = ASSISTANT" "msg_type (infoMessage i t) = INFO"
  "msg_type (toolRequestMessage i name tid inp) = TOOL_REQUEST"
  "msg_type (toolResultMessage i tid' body err) = TOOL_RESULT"
  by (simp_all add: systemMessage_def userMessage_def assistantMessage_def
      infoMessage_def toolRequestMessage_def toolResultMessage_def)

lemma toolUseId_simps [simp]:
  "toolUseId (toolRequestMessage i name tid inp) = Some tid"
  "toolUseId (toolResultMessage i tid' body err) = tid'"
  "toolUseId (systemMessage i t) = None" "toolUseId (userMessage i t) = None"
  "toolUseId (assistantMessage i t) = None" "toolUseId (infoMessage i t) = None"
  by (simp_all add: toolRequestMessage_def toolResultMessage_def systemMessage_def
      userMessage_def assistantMessage_def infoMessage_def)

lemma findToolRequest_Some:
  "findToolRequest tid msgs = Some req \<Longrightarrow>
   req \<in> set msgs \<and> msg_type req = TOOL_REQUEST \<and> toolUseId req = tid"
  by (auto simp: findToolRequest_def find_Some_iff)


lemma findToolRequest_hasRequest:
  "findToolRequest tid msgs = Some req \<Longrightarrow> hasRequest (toolUseId req) msgs"
  by (auto simp: hasRequest_def list_ex_iff dest!: findToolRequest_Some)

subsection \<open>How the state grows\<close>

lemma emitEvent_conversation [simp]:
  "conversation (snd (emitEvent agent eventName d st)) = conversation st"
  by (simp add: emitEvent_def Let_def)

lemma emitEvent_conversation':
  "emitEvent agent eventName d st = (r, st') \<Longrightarrow> conversation st' = conversation st"
  using emitEvent_conversation [of agent eventName d st] by simp

lemma callModel_conversation:
  "callModel agent st = (r, st') \<Longrightarrow> conversation st' = conversation st"
  by (auto simp: callModel_def split: prod.splits)

lemma grows_refl [simp]: "grows agent st st"
  by (simp add: grows_def)

lemma grows_trans: "grows agent a b \<Longrightarrow> grows agent b c \<Longrightarrow> grows agent a c"
  by (auto simp: grows_def)

lemma grows_emitEvent:
  "grows agent st0 st \<Longrightarrow> emitEvent agent eventName d st = (r, st') \<Longrightarrow> grows agent st0 st'"
  by (auto simp: grows_def emitEvent_def agent_messages_def logInvariant_def Let_def)

lemma grows_callValidate:
  "grows agent st0 st \<Longrightarrow> callValidate tool toolCall st = (r, st') \<Longrightarrow> grows agent st0 st'"
  by (auto simp: grows_def callValidate_def agent_messages_def logInvariant_def
      split: prod.splits)

lemma callValidate_conversation:
  "callValidate tool toolCall st = (r, st') \<Longrightarrow> conversation st' = conversation st"
  by (auto simp: callValidate_def split: prod.splits)

lemma grows_needsConfirmation:
  "grows agent st0 st \<Longrightarrow> needsConfirmation toolCall tool st = (r, st') \<Longrightarrow>
   grows agent st0 st'"
  by (auto simp: grows_def needsConfirmation_def callRequiresAcceptance_def agent_messages_def
      logInvariant_def split: prod.splits sum.splits if_splits)

lemma needsConfirmation_conversation:
  "needsConfirmation toolCall tool st = (r, st') \<Longrightarrow> conversation st' = conversation st"
  by (auto simp: needsConfirmation_def callRequiresAcceptance_def
      split: prod.splits sum.splits if_splits)

lemma grows_callModel:
  "grows agent st0 st \<Longrightarrow> callModel agent st = (r, st') \<Longrightarrow> grows agent st0 st'"
  by (auto simp: grows_def callModel_def agent_messages_def logInvariant_def split: prod.splits)

lemma grows_requestConfirmation:
  "grows agent st0 st \<Longrightarrow> requestConfirmation agent toolCall st = (r, st') \<Longrightarrow>
   grows agent st0 st'"
  by (auto simp: requestConfirmation_def dest: grows_emitEvent)

lemma grows_reportError:
  "grows agent st0 st \<Longrightarrow> reportError agent e st = (r, st') \<Longrightarrow> grows agent st0 st'"
  by (auto simp: reportError_def split: sum.splits dest: grows_emitEvent)

lemma grows_append:
  assumes "grows agent st0 st"
    and "agent_messages st' = agent_messages st @ [m]"
    and "prefix (trace st) (trace st')"
    and "builtRequest m"
    and "msg_type m = TOOL_RESULT \<Longrightarrow> answersWhatWasAsked (llm agent) \<Longrightarrow> logInvariant st \<Longrightarrow>
         hasRequest (toolUseId m) (agent_messages st)"
  shows "grows agent st0 st'"
  using assms
  by (auto simp: grows_def logInvariant_def resultsHaveRequests_snoc prefix_def)

lemma grows_addAssistantMessage:
  "grows agent st0 st \<Longrightarrow>
   grows agent st0 (st\<lparr> conversation := addAssistantMessage t (conversation st) \<rparr>)"
  by (erule grows_append [where m = "assistantMessage (randomUUID (conversation st)) t"])
     (simp_all add: agent_messages_def)

lemma grows_addUserMessage:
  "grows agent st0 st \<Longrightarrow>
   grows agent st0 (st\<lparr> conversation := addUserMessage t (conversation st) \<rparr>)"
  by (erule grows_append [where m = "userMessage (randomUUID (conversation st)) t"])
     (simp_all add: agent_messages_def)

lemma grows_addToolRequestMessage:
  "grows agent st0 st \<Longrightarrow>
   grows agent st0
     (st\<lparr> conversation := addToolRequestMessage name tid inp (conversation st) \<rparr>)"
  by (erule grows_append [where m = "toolRequestMessage (randomUUID (conversation st)) name tid inp"])
     (simp_all add: agent_messages_def)

lemma grows_addToolResultMessage:
  "grows agent st0 st \<Longrightarrow>
   (answersWhatWasAsked (llm agent) \<Longrightarrow> logInvariant st \<Longrightarrow>
      hasRequest tid (agent_messages st)) \<Longrightarrow>
   grows agent st0
     (st\<lparr> conversation := addToolResultMessage tid body err (conversation st) \<rparr>)"
  by (erule grows_append [where m = "toolResultMessage (randomUUID (conversation st)) tid body err"])
     (simp_all add: agent_messages_def)

lemma hasRequest_snoc_request [simp]:
  "hasRequest (Some tid) (xs @ [toolRequestMessage i name tid inp])"
  by (simp add: hasRequest_def)

lemma grows_rejectToolCall:
  assumes "grows agent st0 st"
    and "hasRequest (Some (tc_toolUseId toolCall)) (agent_messages st)"
    and "rejectToolCall agent toolCall err st = (r, st')"
  shows "grows agent st0 st'"
proof (cases "emitToolError agent (Some (tc_toolUseId toolCall)) (Some (tc_name toolCall)) err st")
  case (Pair r1 st1)
  then have g1: "grows agent st0 st1" and c1: "conversation st1 = conversation st"
    using assms(1) by (auto simp: emitToolError_def dest: grows_emitEvent emitEvent_conversation')
  show ?thesis
  proof (cases r1)
    case (Inl e)
    with Pair assms(3) g1 show ?thesis by (simp add: rejectToolCall_def)
  next
    case (Inr u)
    with Pair assms(3) have
      "st' = st1\<lparr> conversation := addToolResultMessage (Some (tc_toolUseId toolCall))
                 (JObj [(''error'', err)]) err (conversation st1) \<rparr>"
      by (simp add: rejectToolCall_def)
    moreover have "hasRequest (Some (tc_toolUseId toolCall)) (agent_messages st1)"
      using c1 assms(2) by (simp add: agent_messages_def)
    ultimately show ?thesis
      using g1 by (simp add: grows_addToolResultMessage)
  qed
qed

lemma grows_recordToolFailure:
  assumes "grows agent st0 st"
    and "hasRequest (toolUseId toolRequest) (agent_messages st)"
    and "recordToolFailure agent toolRequest e st = (r, st')"
  shows "grows agent st0 st'"
proof (cases "messageOf e")
  case (Inl e')
  with assms(1,3) show ?thesis by (simp add: recordToolFailure_def)
next
  case (Inr msg)
  show ?thesis
  proof (cases "emitToolError agent (toolUseId toolRequest) None msg st")
    case (Pair r1 st1)
    then have g1: "grows agent st0 st1" and c1: "conversation st1 = conversation st"
      using assms(1)
      by (auto simp: emitToolError_def dest: grows_emitEvent emitEvent_conversation')
    show ?thesis
    proof (cases r1)
      case (Inl e')
      with Pair Inr assms(3) g1 show ?thesis by (simp add: recordToolFailure_def)
    next
      case u: (Inr u)
      with Pair Inr assms(3) have
        "st' = st1\<lparr> conversation := addToolResultMessage (toolUseId toolRequest)
                   (JObj [(''error'', msg)]) msg (conversation st1) \<rparr>"
        by (simp add: recordToolFailure_def)
      moreover have "hasRequest (toolUseId toolRequest) (agent_messages st1)"
        using c1 assms(2) by (simp add: agent_messages_def)
      ultimately show ?thesis
        using g1 by (simp add: grows_addToolResultMessage)
    qed
  qed
qed

lemma grows_addToolResults:
  assumes "addToolResults results (conversation st) = (r, c')"
    and "grows agent st0 st"
    and "answersWhatWasAsked (llm agent) \<Longrightarrow> logInvariant st \<Longrightarrow>
         list_all (\<lambda>res. hasRequest (Some (res_toolUseId res)) (agent_messages st)) results"
  shows "grows agent st0 (st\<lparr> conversation := c' \<rparr>)"
  using assms
proof (induction results arbitrary: st)
  case Nil
  then show ?case by auto
next
  case (Cons res rest)
  show ?case
  proof (cases "errorOf (res_content res)")
    case (Inl e)
    with Cons.prems(1,2) show ?thesis by auto
  next
    case (Inr err)
    let ?c1 = "addToolResultMessage (Some (res_toolUseId res)) (res_content res) err
                 (conversation st)"
    let ?st1 = "st\<lparr> conversation := ?c1 \<rparr>"
    have g1: "grows agent st0 ?st1"
      using Cons.prems(2,3) by (auto intro!: grows_addToolResultMessage)
    have rest: "addToolResults rest (conversation ?st1) = (r, c')"
      using Cons.prems(1) Inr by simp
    have ids: "list_all (\<lambda>res. hasRequest (Some (res_toolUseId res)) (agent_messages ?st1)) rest"
      if "answersWhatWasAsked (llm agent)" "logInvariant ?st1"
    proof -
      have "logInvariant st"
        using that(2)
        by (simp add: logInvariant_def agent_messages_def resultsHaveRequests_snoc)
      with Cons.prems(3) that(1) have
        "list_all (\<lambda>res. hasRequest (Some (res_toolUseId res)) (agent_messages st)) rest"
        by simp
      moreover have "prefix (agent_messages st) (agent_messages ?st1)"
        by (simp add: agent_messages_def)
      ultimately show ?thesis
        by (auto simp: list_all_iff intro: hasRequest_prefix)
    qed
    from Cons.IH [OF rest g1 ids] show ?thesis by simp
  qed
qed

lemma toolUseOf_Inr: "toolUseOf req = Inr tu \<Longrightarrow> content req = ToolUse tu"
  by (auto simp: toolUseOf_def split: Content.splits)

lemma grows_callTool:
  assumes g: "grows agent st0 st"
    and req: "req \<in> set (agent_messages st)" "msg_type req = TOOL_REQUEST"
    and tu: "toolUseOf req = Inr tu"
    and call: "callTool agent req tu st = (r, st')"
  shows "grows agent st0 st'"
proof (cases "processToolCalls (llm agent) [tu] (world st)")
  case (Pair r1 w)
  let ?st1 = "st\<lparr> world := w, trace := trace st @ [ToolCallsProcessed [tu]] \<rparr>"
  have g1: "grows agent st0 ?st1"
    using g by (auto simp: grows_def agent_messages_def logInvariant_def prefix_def)
  show ?thesis
  proof (cases r1)
    case (Inl e)
    with Pair call g1 show ?thesis by (simp add: callTool_def)
  next
    case (Inr results)
    show ?thesis
    proof (cases "emitEvent agent ''toolEnd''
        (ToolEndEvent (toolUseId req) (toolName req) results) ?st1")
      case (Pair r2 st2)
      then have g2: "grows agent st0 st2" and c2: "conversation st2 = conversation st"
        using g1 by (auto dest: grows_emitEvent emitEvent_conversation')
      show ?thesis
      proof (cases r2)
        case (Inl e)
        with Pair Inr \<open>processToolCalls (llm agent) [tu] (world st) = (r1, w)\<close> call g2
        show ?thesis by (simp add: callTool_def)
      next
        case u: (Inr u)
        obtain r3 c3 where add: "addToolResults results (conversation st2) = (r3, c3)"
          by (cases "addToolResults results (conversation st2)")
        have st': "st' = st2\<lparr> conversation := c3 \<rparr>"
          using call \<open>processToolCalls (llm agent) [tu] (world st) = (r1, w)\<close> Inr Pair u add
          by (simp add: callTool_def)
        have ids: "list_all (\<lambda>res. hasRequest (Some (res_toolUseId res)) (agent_messages st2))
                     results"
          if faithful: "answersWhatWasAsked (llm agent)" and inv: "logInvariant st2"
        proof -
          from inv c2 req(1) have "builtRequest req"
            by (auto simp: logInvariant_def builtRequests_def list_all_iff agent_messages_def)
          with req(2) toolUseOf_Inr [OF tu] have tid: "toolUseId req = Some (tc_toolUseId tu)"
            by (simp add: builtRequest_def)
          with req c2 have has: "hasRequest (Some (tc_toolUseId tu)) (agent_messages st2)"
            by (auto simp: hasRequest_def list_ex_iff agent_messages_def)
          from faithful \<open>processToolCalls (llm agent) [tu] (world st) = (r1, w)\<close> Inr
          have "list_all (\<lambda>res. res_toolUseId res \<in> set (map tc_toolUseId [tu])) results"
            unfolding answersWhatWasAsked_def by blast
          with has show ?thesis by (auto simp: list_all_iff)
        qed
        from grows_addToolResults [OF add g2 ids] st' show ?thesis by simp
      qed
    qed
  qed
qed
lemma grows_prefix: "grows agent st st' \<Longrightarrow> prefix (agent_messages st) (agent_messages st')"
  by (simp add: grows_def)

lemma grows_hasRequest:
  "grows agent st st' \<Longrightarrow> hasRequest tid (agent_messages st) \<Longrightarrow>
   hasRequest tid (agent_messages st')"
  by (blast intro: hasRequest_prefix grows_prefix)

text \<open>After the model was invoked, \<open>sendToLLM\<close> only adds to the state the invocation
  left, given that the functions it calls do.\<close>

lemma sendToLLM_after_model:
  assumes tools: "\<And>toolCalls st1 r st'.
      validateAndProcessTools n toolCalls agent st1 = Some (r, st') \<Longrightarrow> grows agent st1 st'"
    and continue: "\<And>st1 r st'.
      processConversation n agent st1 = Some (r, st') \<Longrightarrow> grows agent st1 st'"
    and sent: "sendToLLM n agent st = Some (r, st')"
    and cm: "callModel agent st = (rm, stm)"
  shows "grows agent stm st'"
proof -
  have answered: "grows agent stm st1"
    if "(case response of
           ASSISTANT_TOOL_REQUEST toolCalls \<Rightarrow> validateAndProcessTools n toolCalls agent stm
         | ASSISTANT_CONTENT text \<Rightarrow>
             Some (emitEvent agent ''assistantReceive'' (MessageEvent text)
               (stm\<lparr> conversation := addAssistantMessage text (conversation stm) \<rparr>)))
        = Some (rr, st1)" for response rr st1
  proof (cases response)
    case (ASSISTANT_TOOL_REQUEST toolCalls)
    with that tools show ?thesis by simp
  next
    case (ASSISTANT_CONTENT reply)
    have "grows agent stm (stm\<lparr> conversation := addAssistantMessage reply (conversation stm) \<rparr>)"
      by (rule grows_addAssistantMessage [OF grows_refl])
    with that ASSISTANT_CONTENT show ?thesis
      by (auto intro: grows_emitEvent)
  qed
  have body: "grows agent stm stb"
    if b: "await (Some (callModel agent st)) (\<lambda>response st1.
          await
            (case response of
               ASSISTANT_TOOL_REQUEST toolCalls \<Rightarrow>
                 validateAndProcessTools n toolCalls agent st1
             | ASSISTANT_CONTENT text \<Rightarrow>
                 Some (emitEvent agent ''assistantReceive'' (MessageEvent text)
                   (st1\<lparr> conversation := addAssistantMessage text (conversation st1) \<rparr>)))
            (\<lambda>u st2. processConversation n agent st2)) = Some (rb, stb)" for rb stb
  proof (cases rm)
    case (Inl e)
    with b cm show ?thesis by simp
  next
    case (Inr response)
    with b cm have "await
            (case response of
               ASSISTANT_TOOL_REQUEST toolCalls \<Rightarrow>
                 validateAndProcessTools n toolCalls agent stm
             | ASSISTANT_CONTENT text \<Rightarrow>
                 Some (emitEvent agent ''assistantReceive'' (MessageEvent text)
                   (stm\<lparr> conversation := addAssistantMessage text (conversation stm) \<rparr>)))
            (\<lambda>u st2. processConversation n agent st2) = Some (rb, stb)"
      by simp
    then show ?thesis
    proof (cases rule: awaitE)
      case (threw e)
      from answered [OF threw(1)] show ?thesis .
    next
      case (returned v st1)
      from answered [OF returned(1)] have "grows agent stm st1" .
      moreover from continue returned(2) have "grows agent st1 stb" by simp
      ultimately show ?thesis by (rule grows_trans)
    qed
  qed
  from sent show ?thesis
    unfolding sendToLLM.simps
  proof (cases rule: tryCatchE)
    case (returned v)
    then show ?thesis by (simp add: body)
  next
    case (caught e st1)
    from body [OF caught(1)] have "grows agent stm st1" .
    with caught(2) show ?thesis by (auto intro: grows_reportError)
  qed
qed

lemma processing_grows:
  "processConversation n agent st = Some (r, st') \<Longrightarrow> grows agent st st'"
  "sendToLLM n agent st = Some (r, st') \<Longrightarrow> grows agent st st'"
  "validateAndProcessTools n toolCalls agent st = Some (r, st') \<Longrightarrow> grows agent st st'"
  "executeNextTool n agent st = Some (r, st') \<Longrightarrow> grows agent st st'"
  "executeValidatedTool n tid agent st = Some (r, st') \<Longrightarrow> grows agent st st'"
proof (induction n agent st and n agent st and n toolCalls agent st and n agent st
      and n tid agent st
      arbitrary: r st' and r st' and r st' and r st' and r st'
      rule: processConversation_sendToLLM_validateAndProcessTools_executeNextTool_executeValidatedTool.induct)
  case (1 agent st)
  then show ?case by (simp add: processConversation.simps)
next
  case (2 n agent st)
  show ?case
  proof (cases "getNextAction (conversation st)")
    case SEND_USER_INPUT_TO_LLM
    with "2.prems" "2.IH"(1) show ?thesis by (simp add: processConversation.simps)
  next
    case WAIT_FOR_LOCAL_USER_INPUT
    with "2.prems" show ?thesis by (simp add: processConversation.simps)
  next
    case EXECUTE_LOCAL_TOOL
    with "2.prems" "2.IH"(2) show ?thesis by (simp add: processConversation.simps)
  next
    case SEND_TOOL_RESULT_TO_LLM
    with "2.prems" "2.IH"(3) show ?thesis by (simp add: processConversation.simps)
  qed
next
  case (3 n agent st)
  obtain rm stm where cm: "callModel agent st = (rm, stm)"
    by (cases "callModel agent st")
  have "grows agent stm st'"
    using "3.IH" by (intro sendToLLM_after_model [OF _ _ "3.prems" cm]) simp_all
  with grows_callModel [OF grows_refl cm] show ?case by (rule grows_trans)
next
  case (4 n agent st)
  then show ?case by (simp add: validateAndProcessTools.simps)
next
  case (5 n toolCall rest agent st)
  show ?case
  proof (cases "find (\<lambda>x. getName x = tc_name toolCall) (tools agent)")
    case None
    with "5.prems" "5.IH"(1) show ?thesis by (simp add: validateAndProcessTools.simps)
  next
    case (Some tool)
    define st0 where "st0 = st\<lparr> conversation :=
        addToolRequestMessage (tc_name toolCall) (tc_toolUseId toolCall) (tc_input toolCall)
          (conversation st) \<rparr>"
    have g0: "grows agent st st0"
      unfolding st0_def by (rule grows_addToolRequestMessage [OF grows_refl])
    have has0: "hasRequest (Some (tc_toolUseId toolCall)) (agent_messages st0)"
      by (simp add: st0_def agent_messages_def)
    obtain rv st1 where cv: "callValidate tool toolCall st0 = (rv, st1)"
      by (cases "callValidate tool toolCall st0")
    have g1: "grows agent st st1"
      by (rule grows_callValidate [OF g0 cv])
    have has1: "hasRequest (Some (tc_toolUseId toolCall)) (agent_messages st1)"
      using has0 callValidate_conversation [OF cv] by (simp add: agent_messages_def)
    show ?thesis
    proof (cases rv)
      case (Inl e)
      with "5.prems" Some cv g1 show ?thesis
        by (simp add: validateAndProcessTools.simps st0_def)
    next
      case (Inr v)
      show ?thesis
      proof (cases "ok v")
        case False
        obtain rv2 st2 where cv2: "callValidate tool toolCall st1 = (rv2, st2)"
          by (cases "callValidate tool toolCall st1")
        have g2: "grows agent st st2"
          by (rule grows_callValidate [OF g1 cv2])
        have has2: "hasRequest (Some (tc_toolUseId toolCall)) (agent_messages st2)"
          using has1 callValidate_conversation [OF cv2] by (simp add: agent_messages_def)
        show ?thesis
        proof (cases rv2)
          case (Inl e)
          with "5.prems" Some cv Inr False cv2 g2 show ?thesis
            by (simp add: validateAndProcessTools.simps st0_def)
        next
          case v2: (Inr v2)
          with "5.prems" Some cv Inr False cv2 have
            "rejectToolCall agent toolCall (validation_error v2) st2 = (r, st')"
            by (simp add: validateAndProcessTools.simps st0_def)
          from grows_rejectToolCall [OF g2 has2 this] show ?thesis .
        qed
      next
        case valid: True
        then have valid': "\<not> \<not> ok v" by simp
        obtain rg st2 where gate:
          "(if acceptAll agent then (Inr False, st1)
            else needsConfirmation toolCall tool st1) = (rg, st2)"
          by (cases "if acceptAll agent then (Inr False, st1)
            else needsConfirmation toolCall tool st1")
        have g2: "grows agent st st2"
          using gate g1 by (auto split: if_splits dest: grows_needsConfirmation)
        from "5.prems" Some cv Inr valid gate have rest:
          "await (Some (rg, st2))
             (\<lambda>gated st2.
                if gated then Some (requestConfirmation agent toolCall st2)
                else
                  await (executeValidatedTool n (Some (tc_toolUseId toolCall)) agent st2)
                    (\<lambda>u st3. validateAndProcessTools n rest agent st3)) = Some (r, st')"
          by (simp add: validateAndProcessTools.simps st0_def split: if_splits)
        show ?thesis
        proof (cases rg)
          case (Inl e)
          with rest g2 show ?thesis by simp
        next
          case (Inr gated)
          show ?thesis
          proof (cases gated)
            case True
            with rest Inr have "requestConfirmation agent toolCall st2 = (r, st')" by simp
            from grows_requestConfirmation [OF g2 this] show ?thesis .
          next
            case direct: False
            with rest Inr have
              "await (executeValidatedTool n (Some (tc_toolUseId toolCall)) agent st2)
                 (\<lambda>u st3. validateAndProcessTools n rest agent st3) = Some (r, st')"
              by simp
            then show ?thesis
            proof (cases rule: awaitE)
              case (threw e)
              from "5.IH"(2) [OF Some valid' direct threw(1)] have "grows agent st2 st'" .
              with g2 show ?thesis by (rule grows_trans)
            next
              case (returned u st3)
              from "5.IH"(2) [OF Some valid' direct returned(1)]
              have "grows agent st2 st3" .
              moreover from "5.IH"(3) [OF Some valid' direct returned(2)]
              have "grows agent st3 st'" .
              ultimately show ?thesis using g2 by (blast intro: grows_trans)
            qed
          qed
        qed
      qed
    qed
  qed
next
  case (6 n agent st)
  show ?case
  proof (cases "findUnansweredRequest (getAllMessages (conversation st))")
    case None
    with "6.prems" show ?thesis by (simp add: executeNextTool.simps)
  next
    case (Some toolRequest)
    with "6.prems" "6.IH" show ?thesis by (simp add: executeNextTool.simps)
  qed
next
  case (7 n tid agent st)
  show ?case
  proof (cases "findToolRequest tid (getAllMessages (conversation st))")
    case None
    with "7.prems" show ?thesis by (simp add: executeValidatedTool.simps)
  next
    case (Some toolRequest)
    from findToolRequest_Some [OF Some]
    have req: "toolRequest \<in> set (agent_messages st)" "msg_type toolRequest = TOOL_REQUEST"
      by (simp_all add: agent_messages_def)
    have has: "hasRequest (toolUseId toolRequest) (agent_messages st)"
      using findToolRequest_hasRequest [OF Some] by (simp add: agent_messages_def)
    show ?thesis
    proof (cases "toolUseOf toolRequest")
      case (Inl e)
      with "7.prems" Some show ?thesis by (simp add: executeValidatedTool.simps)
    next
      case (Inr toolUse)
      obtain rs st1 where started: "emitEvent agent ''toolStart''
          (ToolStartEvent (toolUseId toolRequest) (toolName toolRequest) (tc_input toolUse)) st
          = (rs, st1)"
        by (cases "emitEvent agent ''toolStart''
          (ToolStartEvent (toolUseId toolRequest) (toolName toolRequest) (tc_input toolUse)) st")
      have g1: "grows agent st st1"
        by (rule grows_emitEvent [OF grows_refl started])
      have req1: "toolRequest \<in> set (agent_messages st1)"
        using req(1) emitEvent_conversation' [OF started] by (simp add: agent_messages_def)
      show ?thesis
      proof (cases rs)
        case (Inl e)
        with "7.prems" Some Inr started g1 show ?thesis
          by (simp add: executeValidatedTool.simps)
      next
        case u: (Inr u)
        have body: "grows agent st1 stb"
          if "await (Some (callTool agent toolRequest toolUse st1))
                (\<lambda>u st2. processConversation n agent st2) = Some (rb, stb)" for rb stb
          using that
        proof (cases rule: awaitE)
          case (threw e)
          then have "callTool agent toolRequest toolUse st1 = (Inl e, stb)" by simp
          from grows_callTool [OF grows_refl req1 req(2) Inr this] show ?thesis .
        next
          case (returned v st2)
          then have "callTool agent toolRequest toolUse st1 = (Inr v, st2)" by simp
          from grows_callTool [OF grows_refl req1 req(2) Inr this]
          have "grows agent st1 st2" .
          moreover from "7.IH"(1) [OF Some Inr] returned(2) have "grows agent st2 stb" by simp
          ultimately show ?thesis by (rule grows_trans)
        qed
        from "7.prems" Some Inr started u have
          "tryCatch
             (await (Some (callTool agent toolRequest toolUse st1))
                (\<lambda>u st2. processConversation n agent st2))
             (\<lambda>thrown st3.
                await (Some (recordToolFailure agent toolRequest thrown st3))
                  (\<lambda>u st4. processConversation n agent st4)) = Some (r, st')"
          by (simp add: executeValidatedTool.simps)
        then show ?thesis
        proof (cases rule: tryCatchE)
          case (returned v)
          from body [OF returned(1)] g1 show ?thesis by (rule grows_trans [rotated])
        next
          case (caught e st3)
          from body [OF caught(1)] g1 have g3: "grows agent st st3"
            by (rule grows_trans [rotated])
          have has3: "hasRequest (toolUseId toolRequest) (agent_messages st3)"
            by (rule grows_hasRequest [OF g3 has])
          from caught(2) show ?thesis
          proof (cases rule: awaitE)
            case (threw e')
            then have "recordToolFailure agent toolRequest e st3 = (Inl e', st')" by simp
            from grows_recordToolFailure [OF g3 has3 this] show ?thesis .
          next
            case (returned v st4)
            then have "recordToolFailure agent toolRequest e st3 = (Inr v, st4)" by simp
            from grows_recordToolFailure [OF g3 has3 this] have "grows agent st st4" .
            moreover from "7.IH"(2) [OF Some Inr] returned(2) have "grows agent st4 st'"
              by simp
            ultimately show ?thesis by (rule grows_trans)
          qed
        qed
      qed
    qed
  qed
qed

subsection \<open>Events when no handler throws\<close>


lemma emitEvent_no_listeners:
  "listeners (eventBus st) eventName = None \<Longrightarrow>
   emitEvent agent eventName d st = (Inr (), st\<lparr> trace := trace st @ [Emitted eventName d] \<rparr>)"
  by (simp add: emitEvent_def emit_def)

subsection \<open>Running the model on concrete inputs\<close>

text \<open>The equations that evaluate the agent. The two congruence rules make the
  simplifier evaluate an awaited call before it looks at what follows it.\<close>

lemma await_weak_cong: "m = m' \<Longrightarrow> await m rest = await m' rest"
  by simp

lemma tryCatch_weak_cong: "m = m' \<Longrightarrow> tryCatch m handler = tryCatch m' handler"
  by simp

lemmas agent_eval =
  processConversation.simps sendToLLM.simps validateAndProcessTools.simps
  executeNextTool.simps executeValidatedTool.simps
  run_def handleToolConfirmation_def lastAssistantContent_def getMessagesByType_def
  callModel_def callTool_def recordToolFailure_def reportError_def rejectToolCall_def
  callValidate_def callRequiresAcceptance_def
  requestConfirmation_def needsConfirmation_def emitToolError_def emitEvent_def
  findToolRequest_def findUnansweredRequest_def toolUseOf_def
  emit_def newEventBus_def eventBus_on_def agent_on_def handlerEvents_def
  getNextAction_def getNextActionForType_def getLastMessage_def getAllMessages_def
  addMessage_def addSystemMessage_def addUserMessage_def addAssistantMessage_def
  addToolRequestMessage_def addToolResultMessage_def addInfoMessage_def
  systemMessage_def userMessage_def assistantMessage_def toolRequestMessage_def
  toolResultMessage_def infoMessage_def randomUUID_def newConversationManager_def
  initialize_def createAgent_def agent_messages_def
  observe_def kinds_def carried_def Let_def

lemmas example_eval =
  agentOf_def startState_def calculatorAgent_def acceptingTool_def rejectingTool_def
  toolThenDone_def alwaysDone_def modelDown_def toolsDown_def modelRejects_def call_def
  quietHandler_def throwingHandler_def withThrowingHandler_def requestedState_def
  answeredState_def


subsection \<open>What sendToLLM does first\<close>

lemma sendToLLM_invokes_model:
  assumes "sendToLLM n agent st = Some (r, st')"
  shows "prefix (agent_messages st) (agent_messages st') \<and>
         prefix (trace st @ [ModelInvoked (agent_messages st)]) (trace st')"
proof -
  obtain rm stm where cm: "callModel agent st = (rm, stm)"
    by (cases "callModel agent st")
  then have stm: "agent_messages stm = agent_messages st"
    "trace stm = trace st @ [ModelInvoked (agent_messages st)]"
    by (auto simp: callModel_def agent_messages_def split: prod.splits)
  have "grows agent stm st'"
    by (rule sendToLLM_after_model [OF processing_grows(3) processing_grows(1) assms cm])
  with stm show ?thesis by (simp add: grows_def)
qed


subsection \<open>What the functions throw\<close>


lemma hasMessage_TypeError [simp]: "hasMessage TypeError"
  by (simp add: hasMessage_def)

lemma hasMessage_Error [simp]: "hasMessage (Error m)"
  by (simp add: hasMessage_def)










subsection \<open>What a message carries\<close>

lemma toolResultMessage_carries:
  "msg_type (toolResultMessage i tid body err) = TOOL_RESULT"
  "toolUseId (toolResultMessage i tid body err) = tid"
  "error (toolResultMessage i tid body err) = err"
  "content (toolResultMessage i tid (JObj kvs) err) =
     ToolResult tid (JObj kvs) (if truthy err then ''error'' else ''success'')"
  by (simp_all add: toolResultMessage_def)


lemma userMessage_carries:
  "msg_type (userMessage i t) = USER" "content (userMessage i t) = Text t"
  by (simp_all add: userMessage_def)

subsection \<open>A tool that fails\<close>


subsection \<open>What run returns\<close>


lemma lastAssistantContent_addUserMessage [simp]:
  "lastAssistantContent (addUserMessage t c) = lastAssistantContent c"
  by (simp add: lastAssistantContent_def getMessagesByType_def)

lemma lastAssistantContent_addAssistantMessage [simp]:
  "lastAssistantContent (addAssistantMessage t c) = Text t"
  by (simp add: lastAssistantContent_def getMessagesByType_def assistantMessage_def)


subsection \<open>What handleToolConfirmation does\<close>

lemma handleToolConfirmation_declined:
  "handleToolConfirmation (Suc n) tid False agent st =
     sendToLLM n agent
       (st\<lparr> conversation :=
          addUserMessage ''No, do not execute this tool. Lets do something else.''
            (addToolResultMessage (Some tid)
               (JObj [(''error'', JStr ''Tool use was cancelled by the user.'')])
               (JStr ''Tool use was cancelled by the user.'') (conversation st)) \<rparr>)"
  by (simp add: handleToolConfirmation_def processConversation.simps)


lemma resultsHaveRequests_prefix:
  "resultsHaveRequests (xs @ ys) \<Longrightarrow> resultsHaveRequests xs"
proof (induction ys rule: rev_induct)
  case Nil
  then show ?case by simp
next
  case (snoc y ys)
  from snoc.prems have "resultsHaveRequests ((xs @ ys) @ [y])" by simp
  then have "resultsHaveRequests (xs @ ys)"
    unfolding resultsHaveRequests_snoc by simp
  then show ?case by (rule snoc.IH)
qed

subsection \<open>The log over the calls of the API\<close>

lemma logInvariant_initialize:
  "builtRequests (getAllMessages (initialize system initialMessages)) \<and>
   resultsHaveRequests (getAllMessages (initialize system initialMessages))"
proof -
  have "builtRequests (getAllMessages (fold addUserMessage ms c)) \<and>
        resultsHaveRequests (getAllMessages (fold addUserMessage ms c))"
    if "builtRequests (getAllMessages c) \<and> resultsHaveRequests (getAllMessages c)" for ms c
    using that
  proof (induction ms arbitrary: c)
    case Nil
    then show ?case by simp
  next
    case (Cons m ms)
    show ?case
      using Cons.prems
      by (simp only: fold_simps, intro Cons.IH) (simp add: resultsHaveRequests_snoc)
  qed
  note users = this
  have "builtRequests (getAllMessages (addSystemMessage system newConversationManager)) \<and>
      resultsHaveRequests (getAllMessages (addSystemMessage system newConversationManager))"
    using resultsHaveRequests_snoc
      [of "[]" "systemMessage (randomUUID newConversationManager) system"]
    by (simp add: builtRequests_def)
  from users [OF this] show ?thesis
    by (simp add: initialize_def)
qed

lemma run_grows:
  assumes "run n input agent st = Some (r, st')"
  shows "grows agent st st'"
proof -
  let ?st0 = "st\<lparr> conversation := addUserMessage input (conversation st) \<rparr>"
  obtain r1 st1 where sent: "emitEvent agent ''userSent'' (MessageEvent input) ?st0 = (r1, st1)"
    by (cases "emitEvent agent ''userSent'' (MessageEvent input) ?st0")
  have g1: "grows agent st st1"
    by (rule grows_emitEvent [OF grows_addUserMessage [OF grows_refl] sent])
  show ?thesis
  proof (cases r1)
    case (Inl e)
    with assms sent g1 show ?thesis by (simp add: run_def)
  next
    case (Inr u)
    with assms sent obtain r2 where "processConversation n agent st1 = Some (r2, st')"
      by (auto simp: run_def split: option.splits sum.splits)
    from processing_grows(1) [OF this] g1 show ?thesis by (rule grows_trans [rotated])
  qed
qed

lemma handleToolConfirmation_grows:
  assumes "handleToolConfirmation n tid confirmed agent st = Some (r, st')"
    and "confirmed \<or> hasRequest (Some tid) (agent_messages st)"
  shows "grows agent st st'"
proof (cases confirmed)
  case True
  with assms(1) show ?thesis
    by (simp add: handleToolConfirmation_def processing_grows(5))
next
  case False
  with assms(2) have "hasRequest (Some tid) (agent_messages st)" by simp
  then have "grows agent st
      (st\<lparr> conversation := addToolResultMessage (Some tid)
           (JObj [(''error'', JStr ''Tool use was cancelled by the user.'')])
           (JStr ''Tool use was cancelled by the user.'') (conversation st) \<rparr>)"
    by (intro grows_addToolResultMessage grows_refl)
  from grows_addUserMessage [OF this,
      of "''No, do not execute this tool. Lets do something else.''"]
  have "grows agent st
      (st\<lparr> conversation :=
         addUserMessage ''No, do not execute this tool. Lets do something else.''
           (addToolResultMessage (Some tid)
              (JObj [(''error'', JStr ''Tool use was cancelled by the user.'')])
              (JStr ''Tool use was cancelled by the user.'') (conversation st)) \<rparr>)"
    by simp
  moreover from assms(1) False have "grows agent
      (st\<lparr> conversation :=
         addUserMessage ''No, do not execute this tool. Lets do something else.''
           (addToolResultMessage (Some tid)
              (JObj [(''error'', JStr ''Tool use was cancelled by the user.'')])
              (JStr ''Tool use was cancelled by the user.'') (conversation st)) \<rparr>) st'"
    by (simp add: handleToolConfirmation_def processing_grows(1))
  ultimately show ?thesis by (rule grows_trans)
qed

lemma apiCall_keeps_logInvariant:
  assumes "apiCall agent c st = Some st'"
    and "case c of Confirm n tid confirmed \<Rightarrow>
           confirmed \<or> hasRequest (Some tid) (agent_messages st) | _ \<Rightarrow> True"
    and "answersWhatWasAsked (llm agent)" and "logInvariant st"
  shows "logInvariant st'"
proof (cases c)
  case (Run n input)
  with assms(1) obtain r where "run n input agent st = Some (r, st')" by auto
  from run_grows [OF this] assms(3,4) show ?thesis by (simp add: grows_def)
next
  case (Confirm n tid confirmed)
  with assms(1) obtain r where
    "handleToolConfirmation n tid confirmed agent st = Some (r, st')" by auto
  from handleToolConfirmation_grows [OF this] assms(2,3,4) Confirm show ?thesis
    by (simp add: grows_def)
next
  case (Subscribe handlers)
  with assms(1,4) show ?thesis
    by (auto simp: logInvariant_def agent_messages_def agent_on_def)
next
  case Shutdown
  with assms(1,4) show ?thesis
    by (auto simp: logInvariant_def agent_messages_def shutdown_def)
qed

lemma afterCalls_keeps_logInvariant:
  assumes "answersWhatWasAsked (llm agent)"
  shows "logInvariant st \<Longrightarrow> declinesRequested agent cs st \<Longrightarrow>
         afterCalls agent cs st = Some st' \<Longrightarrow> logInvariant st'"
proof (induction cs arbitrary: st)
  case Nil
  then show ?case by simp
next
  case (Cons c cs)
  from Cons.prems(3) obtain st1 where c: "apiCall agent c st = Some st1"
    and rest: "afterCalls agent cs st1 = Some st'"
    by (auto split: option.splits)
  from Cons.prems(2) c have
    proper: "case c of Confirm n tid confirmed \<Rightarrow>
           confirmed \<or> hasRequest (Some tid) (agent_messages st) | _ \<Rightarrow> True"
    and later: "declinesRequested agent cs st1"
    by simp_all
  from apiCall_keeps_logInvariant [OF c proper assms Cons.prems(1)]
  have "logInvariant st1" .
  from Cons.IH [OF this later rest] show ?case .
qed

text \<open>Declining a tool use for which the log holds no request leaves a tool-result
  message that has no request.\<close>

lemma declined_unknown_orphan:
  assumes "\<not> hasRequest (Some tid) (agent_messages st)"
    and "handleToolConfirmation n tid False agent st = Some (r, st')"
  shows "\<not> resultsHaveRequests (agent_messages st')"
proof (cases n)
  case 0
  with assms(2) show ?thesis by (simp add: handleToolConfirmation_def processConversation.simps)
next
  case (Suc k)
  let ?result = "toolResultMessage (randomUUID (conversation st)) (Some tid)
      (JObj [(''error'', JStr ''Tool use was cancelled by the user.'')])
      (JStr ''Tool use was cancelled by the user.'')"
  let ?declined = "st\<lparr> conversation :=
      addUserMessage ''No, do not execute this tool. Lets do something else.''
        (addToolResultMessage (Some tid)
           (JObj [(''error'', JStr ''Tool use was cancelled by the user.'')])
           (JStr ''Tool use was cancelled by the user.'') (conversation st)) \<rparr>"
  from assms(2) Suc have "sendToLLM k agent ?declined = Some (r, st')"
    by (simp add: handleToolConfirmation_declined)
  from sendToLLM_invokes_model [OF this]
  have "prefix (agent_messages ?declined) (agent_messages st')" by simp
  then obtain more where more: "agent_messages st' = (agent_messages st @ [?result]) @ more"
    by (auto simp: prefix_def agent_messages_def)
  have orphan: "\<not> resultsHaveRequests (agent_messages st @ [?result])"
    using assms(1) by (simp add: resultsHaveRequests_snoc)
  show ?thesis
    unfolding more using orphan by (rule contrapos_nn) (rule resultsHaveRequests_prefix)
qed

lemma oneResultPerToolUse_kinds:
  "oneResultPerToolUse (agent_messages st) \<longleftrightarrow>
   distinct (map snd (filter (\<lambda>k. fst k = TOOL_RESULT) (kinds st)))"
  by (simp add: oneResultPerToolUse_def kinds_def agent_messages_def filter_map comp_def)
section \<open>Unregistered tools (claim C10)\<close>

text \<open>
  Claim C10. A tool call of a model response whose name matches no registered tool is
  skipped silently: the batch is processed exactly as the batch without such calls is
  (same outcome, same log, same trace, so no tool-request message and no event for it),
  and the loop goes on with the next call.
\<close>

theorem unregistered_tool_calls_are_skipped:
  "validateAndProcessTools n toolCalls agent st =
     validateAndProcessTools n (filter (registered agent) toolCalls) agent st \<and>
   (\<not> registered agent toolCall \<longrightarrow>
      validateAndProcessTools n (toolCall # rest) agent st =
        validateAndProcessTools n rest agent st)"
proof
  show "validateAndProcessTools n toolCalls agent st =
     validateAndProcessTools n (filter (registered agent) toolCalls) agent st"
  proof (induction toolCalls arbitrary: st)
    case Nil
    show ?case by simp
  next
    case (Cons c cs)
    show ?case
    proof (cases "registered agent c")
      case True
      then obtain tool where "find (\<lambda>x. getName x = tc_name c) (tools agent) = Some tool"
        by (auto simp: registered_def)
      moreover have "validateAndProcessTools n cs agent =
          validateAndProcessTools n (filter (registered agent) cs) agent"
        by (rule ext) (rule Cons.IH)
      ultimately show ?thesis
        using True
        by (simp add: validateAndProcessTools.simps Let_def cong: sum.case_cong if_cong)
    next
      case False
      then have "find (\<lambda>x. getName x = tc_name c) (tools agent) = None"
        by (simp add: registered_def)
      with False Cons.IH show ?thesis
        by (simp add: validateAndProcessTools.simps)
    qed
  qed
  show "\<not> registered agent toolCall \<longrightarrow>
      validateAndProcessTools n (toolCall # rest) agent st =
        validateAndProcessTools n rest agent st"
    by (simp add: registered_def validateAndProcessTools.simps)
qed

theorem unregistered_tool_calls_are_skipped_witness:
  "\<not> registered (agentOf [acceptingTool ''calculator'' False] alwaysDone)
       (call ''t0'' ''unknown'') \<and>
   validateAndProcessTools 2 [call ''t0'' ''unknown'', call ''t1'' ''calculator'']
     (agentOf [acceptingTool ''calculator'' False] alwaysDone) startState =
   validateAndProcessTools 2 [call ''t1'' ''calculator'']
     (agentOf [acceptingTool ''calculator'' False] alwaysDone) startState \<and>
   observe (validateAndProcessTools 2 [call ''t0'' ''unknown'', call ''t1'' ''calculator'']
     (agentOf [acceptingTool ''calculator'' False] alwaysDone) startState) =
   Some (Inr (),
     [(SYSTEM, None), (TOOL_REQUEST, Some ''t1''), (TOOL_RESULT, Some ''t1''),
      (ASSISTANT, None)],
     [[''emit'', ''toolStart''], [''processToolCalls'', ''t1''], [''emit'', ''toolEnd''],
      [''invokeModel''], [''emit'', ''assistantReceive'']])"
proof -
  let ?agent = "agentOf [acceptingTool ''calculator'' False] alwaysDone"
  have unknown: "\<not> registered ?agent (call ''t0'' ''unknown'')"
    by (simp add: registered_def agentOf_def acceptingTool_def call_def)
  from unregistered_tool_calls_are_skipped
    [of 2 "[]" ?agent startState "call ''t0'' ''unknown''" "[call ''t1'' ''calculator'']"]
    unknown
  have skipped: "validateAndProcessTools 2 [call ''t0'' ''unknown'', call ''t1'' ''calculator'']
      ?agent startState =
    validateAndProcessTools 2 [call ''t1'' ''calculator''] ?agent startState"
    by blast
  have "observe (validateAndProcessTools 2 [call ''t1'' ''calculator''] ?agent startState) =
    Some (Inr (),
     [(SYSTEM, None), (TOOL_REQUEST, Some ''t1''), (TOOL_RESULT, Some ''t1''),
      (ASSISTANT, None)],
     [[''emit'', ''toolStart''], [''processToolCalls'', ''t1''], [''emit'', ''toolEnd''],
      [''invokeModel''], [''emit'', ''assistantReceive'']])"
    by (simp add: agent_eval example_eval eval_nat_numeral
        cong: await_weak_cong tryCatch_weak_cong)
  with unknown skipped show ?thesis by (simp only: simp_thms)
qed

section \<open>Invalid tool input (claim C8)\<close>



section \<open>Declining a tool use (claim C9)\<close>

text \<open>
  Claim C9. \<open>handleToolConfirmation(toolUseId, false)\<close> appends two messages to the log
  and changes nothing else: first a tool-result message for that \<open>toolUseId\<close> whose error
  is \<open>Tool use was cancelled by the user.\<close>, whose content is the object with that error
  and whose status is \<open>error\<close>; then a user message whose content is \<open>No, do not execute
  this tool. Lets do something else.\<close> Then it resumes processing: the last message being
  a user message, the next action is to send the conversation to the LLM, which is what
  happens (with fuel for one step, the call is \<open>sendToLLM\<close> on the extended log; every
  outcome extends that log, and its trace goes on with the invocation of the model on it).
  This holds for every \<open>toolUseId\<close>, pending or not.
\<close>

theorem declined_tool_use_is_recorded_then_model_invoked:
  "(let declined = st\<lparr> conversation :=
          addUserMessage ''No, do not execute this tool. Lets do something else.''
            (addToolResultMessage (Some tid)
               (JObj [(''error'', JStr ''Tool use was cancelled by the user.'')])
               (JStr ''Tool use was cancelled by the user.'') (conversation st)) \<rparr>
    in (\<exists>result refusal.
          agent_messages declined = agent_messages st @ [result, refusal] \<and>
          msg_type result = TOOL_RESULT \<and>
          toolUseId result = Some tid \<and>
          error result = JStr ''Tool use was cancelled by the user.'' \<and>
          content result =
            ToolResult (Some tid)
              (JObj [(''error'', JStr ''Tool use was cancelled by the user.'')]) ''error'' \<and>
          msg_type refusal = USER \<and>
          content refusal = Text ''No, do not execute this tool. Lets do something else.'') \<and>
       getNextAction (conversation declined) = SEND_USER_INPUT_TO_LLM \<and>
       handleToolConfirmation (Suc n) tid False agent st = sendToLLM n agent declined \<and>
       (\<forall>r st'. handleToolConfirmation (Suc n) tid False agent st = Some (r, st') \<longrightarrow>
          prefix (agent_messages declined) (agent_messages st') \<and>
          prefix (trace st @ [ModelInvoked (agent_messages declined)]) (trace st')))"
proof -
  define cancelled where "cancelled = addToolResultMessage (Some tid)
          (JObj [(''error'', JStr ''Tool use was cancelled by the user.'')])
          (JStr ''Tool use was cancelled by the user.'') (conversation st)"
  define declined where "declined = st\<lparr> conversation :=
    addUserMessage ''No, do not execute this tool. Lets do something else.'' cancelled \<rparr>"
  have log: "agent_messages declined = agent_messages st @
         [toolResultMessage (randomUUID (conversation st)) (Some tid)
            (JObj [(''error'', JStr ''Tool use was cancelled by the user.'')])
            (JStr ''Tool use was cancelled by the user.''),
          userMessage (randomUUID cancelled)
            ''No, do not execute this tool. Lets do something else.'']"
    by (simp add: declined_def cancelled_def agent_messages_def)
  have appended: "\<exists>result refusal.
          agent_messages declined = agent_messages st @ [result, refusal] \<and>
          msg_type result = TOOL_RESULT \<and>
          toolUseId result = Some tid \<and>
          error result = JStr ''Tool use was cancelled by the user.'' \<and>
          content result =
            ToolResult (Some tid)
              (JObj [(''error'', JStr ''Tool use was cancelled by the user.'')]) ''error'' \<and>
          msg_type refusal = USER \<and>
          content refusal = Text ''No, do not execute this tool. Lets do something else.''"
    unfolding log
    by (intro exI conjI, rule refl)
       (simp_all add: toolResultMessage_carries(3,4) userMessage_carries(2))
  have action: "getNextAction (conversation declined) = SEND_USER_INPUT_TO_LLM"
    by (simp add: declined_def)
  have resumes: "handleToolConfirmation (Suc n) tid False agent st = sendToLLM n agent declined"
    by (simp add: handleToolConfirmation_declined declined_def cancelled_def)
  have invoked: "prefix (agent_messages declined) (agent_messages st') \<and>
          prefix (trace st @ [ModelInvoked (agent_messages declined)]) (trace st')"
    if "handleToolConfirmation (Suc n) tid False agent st = Some (r, st')" for r st'
    using sendToLLM_invokes_model [of n agent declined r st'] that resumes
    by (simp add: declined_def)
  from appended action resumes invoked show ?thesis
    unfolding Let_def cancelled_def [symmetric] declined_def [symmetric] by blast
qed

theorem declined_tool_use_is_recorded_then_model_invoked_witness:
  "handleToolConfirmation 2 ''t1'' False (agentOf [acceptingTool ''fs_write'' False] alwaysDone)
     requestedState =
   sendToLLM 1 (agentOf [acceptingTool ''fs_write'' False] alwaysDone)
     (requestedState\<lparr> conversation :=
        addUserMessage ''No, do not execute this tool. Lets do something else.''
          (addToolResultMessage (Some ''t1'')
             (JObj [(''error'', JStr ''Tool use was cancelled by the user.'')])
             (JStr ''Tool use was cancelled by the user.'') (conversation requestedState)) \<rparr>) \<and>
   (\<exists>st'. handleToolConfirmation 2 ''t1'' False
            (agentOf [acceptingTool ''fs_write'' False] alwaysDone) requestedState =
          Some (Inr (), st') \<and>
          map carried (agent_messages st') =
            [(SYSTEM, None, Text ''You are helpful'', JUndefined),
             (TOOL_REQUEST, Some ''t1'',
              ToolUse \<lparr> tc_toolUseId = ''t1'', tc_name = ''fs_write'', tc_input = JObj [] \<rparr>,
              JUndefined),
             (TOOL_RESULT, Some ''t1'',
              ToolResult (Some ''t1'')
                (JObj [(''error'', JStr ''Tool use was cancelled by the user.'')]) ''error'',
              JStr ''Tool use was cancelled by the user.''),
             (USER, None, Text ''No, do not execute this tool. Lets do something else.'',
              JUndefined),
             (ASSISTANT, None, Text ''done'', JUndefined)] \<and>
          map effectName (trace st') = [[''invokeModel''], [''emit'', ''assistantReceive'']])"
proof -
  let ?agent = "agentOf [acceptingTool ''fs_write'' False] alwaysDone"
  let ?declined = "requestedState\<lparr> conversation :=
        addUserMessage ''No, do not execute this tool. Lets do something else.''
          (addToolResultMessage (Some ''t1'')
             (JObj [(''error'', JStr ''Tool use was cancelled by the user.'')])
             (JStr ''Tool use was cancelled by the user.'') (conversation requestedState)) \<rparr>"
  from declined_tool_use_is_recorded_then_model_invoked
    [where st = requestedState and tid = "''t1''" and n = 1 and agent = ?agent]
  have resumes: "handleToolConfirmation 2 ''t1'' False ?agent requestedState =
      sendToLLM 1 ?agent ?declined"
    by (simp add: Let_def numeral_2_eq_2)
  have "\<exists>st'. sendToLLM 1 ?agent ?declined = Some (Inr (), st') \<and>
          map carried (agent_messages st') =
            [(SYSTEM, None, Text ''You are helpful'', JUndefined),
             (TOOL_REQUEST, Some ''t1'',
              ToolUse \<lparr> tc_toolUseId = ''t1'', tc_name = ''fs_write'', tc_input = JObj [] \<rparr>,
              JUndefined),
             (TOOL_RESULT, Some ''t1'',
              ToolResult (Some ''t1'')
                (JObj [(''error'', JStr ''Tool use was cancelled by the user.'')]) ''error'',
              JStr ''Tool use was cancelled by the user.''),
             (USER, None, Text ''No, do not execute this tool. Lets do something else.'',
              JUndefined),
             (ASSISTANT, None, Text ''done'', JUndefined)] \<and>
          map effectName (trace st') = [[''invokeModel''], [''emit'', ''assistantReceive'']]"
    by (simp add: agent_eval example_eval eval_nat_numeral
        cong: await_weak_cong tryCatch_weak_cong)
  with resumes show ?thesis by (simp only: simp_thms)
qed
section \<open>Errors while a turn is processed (claim C6)\<close>



section \<open>The tool's own predicate (claim C5)\<close>

text \<open>
  Claim C5 fails, and the code contradicts its documentation: the README says of
  \<open>requiresAcceptance(params)\<close> that it ``returns true if the tool requires user
  confirmation before execution'', and its example is a \<open>calculator\<close> tool with such a
  predicate. But \<open>needsConfirmation\<close> calls the predicate for the tool named
  \<open>execute_bash\<close> only. Here the agent has one tool, \<open>calculator\<close>, whose
  \<open>requiresAcceptance\<close> returns true for every input, \<open>acceptAll\<close> is false, and the model
  requests a call of it: \<open>needsConfirmation\<close> answers false without calling the predicate,
  and \<open>run\<close> executes the tool and returns the model's next answer. No \<open>toolConfirmation\<close>
  event is emitted.
\<close>

theorem requiresAcceptance_is_not_consulted:
  "requiresAcceptance (acceptingTool ''calculator'' True) (tc_input (call ''t1'' ''calculator''))
     (0::nat) = (Inr True, 0) \<and>
   \<not> acceptAll calculatorAgent \<and>
   needsConfirmation (call ''t1'' ''calculator'') (acceptingTool ''calculator'' True) startState =
     (Inr False, startState) \<and>
   observe (run 3 ''do it'' calculatorAgent
      (agent_on [''toolConfirmation'' \<mapsto> 0] startState)) =
   Some (Inr (Text ''done''),
     [(SYSTEM, None), (USER, None), (TOOL_REQUEST, Some ''t1''), (TOOL_RESULT, Some ''t1''),
      (ASSISTANT, None)],
     [[''emit'', ''userSent''], [''invokeModel''], [''emit'', ''toolStart''],
      [''processToolCalls'', ''t1''], [''emit'', ''toolEnd''], [''invokeModel''],
      [''emit'', ''assistantReceive'']])"
  by (simp add: agent_eval example_eval eval_nat_numeral
      cong: await_weak_cong tryCatch_weak_cong)

section \<open>Waiting for the confirmation (claim C1)\<close>

text \<open>
  Claim C1 fails, and the code contradicts itself: \<open>validateAndProcessTools\<close> requests
  the confirmation and returns, so that the tool runs when \<open>handleToolConfirmation\<close> is
  called; but \<open>sendToLLM\<close> goes on with \<open>processConversation\<close> after
  \<open>validateAndProcessTools\<close> has returned, the last message is the tool request, and
  \<open>executeNextTool\<close> executes it at once. Here the agent has the tool \<open>fs_write\<close>, whose
  calls always need confirmation, \<open>acceptAll\<close> is false, and the model requests a call of
  it: within the one call of \<open>run\<close>, and with no call of \<open>handleToolConfirmation\<close>, the
  \<open>toolConfirmation\<close> event is followed by the execution of the tool, its tool-result
  message, a second invocation of the model and the assistant's message.
\<close>

theorem gated_tool_is_executed_without_confirmation:
  "\<not> acceptAll (agentOf [acceptingTool ''fs_write'' False] (toolThenDone [call ''t1'' ''fs_write''])) \<and>
   needsConfirmation (call ''t1'' ''fs_write'') (acceptingTool ''fs_write'' False) startState =
     (Inr True, startState) \<and>
   observe (run 4 ''do it''
      (agentOf [acceptingTool ''fs_write'' False] (toolThenDone [call ''t1'' ''fs_write'']))
      startState) =
   Some (Inr (Text ''done''),
     [(SYSTEM, None), (USER, None), (TOOL_REQUEST, Some ''t1''), (TOOL_RESULT, Some ''t1''),
      (ASSISTANT, None)],
     [[''emit'', ''userSent''], [''invokeModel''], [''emit'', ''toolConfirmation''],
      [''emit'', ''toolStart''], [''processToolCalls'', ''t1''], [''emit'', ''toolEnd''],
      [''invokeModel''], [''emit'', ''assistantReceive'']])"
  by (simp add: agent_eval example_eval eval_nat_numeral
      cong: await_weak_cong tryCatch_weak_cong)
section \<open>Confirming a tool use that is not pending (claim C3)\<close>



section \<open>Tool results and their requests (claim C2)\<close>

text \<open>
  Claim C2, as amended. The agent is created, and its user calls \<open>run\<close>,
  \<open>handleToolConfirmation\<close>, \<open>on\<close> and \<open>shutdown\<close> in any order and number, each call
  made when the one before has settled. Provided the LLM service's \<open>processToolCalls\<close>
  answers with results for the tool uses it was given and no other, and a tool use is
  declined only when the log holds a request for it, then in the log every tool-result
  message has a tool-request message with the same tool-use identifier earlier in the log.
  (That no tool-use identifier has more than one tool-result message does not hold, even so.)
\<close>

theorem tool_results_have_requests:
  assumes "createAgent behaviours config w = (agent, st0)"
    and "answersWhatWasAsked (llm agent)"
    and "declinesRequested agent cs st0"
    and "afterCalls agent cs st0 = Some st"
  shows "resultsHaveRequests (agent_messages st)"
proof -
  from assms(1) have "conversation st0 = initialize (config_system config)
      (case config_messages config of None \<Rightarrow> [] | Some ms \<Rightarrow> ms)"
    by (auto simp: createAgent_def Let_def)
  then have "logInvariant st0"
    using logInvariant_initialize by (simp add: logInvariant_def agent_messages_def)
  from afterCalls_keeps_logInvariant [OF assms(2) this assms(3,4)]
  show ?thesis by (simp add: logInvariant_def)
qed

theorem tool_results_have_requests_witness:
  "createAgent (\<lambda>cb. quietHandler)
     \<lparr> config_system = ''You are helpful'', config_messages = None,
       config_llm = toolThenDone [call ''t1'' ''calculator''],
       config_tools = Some [acceptingTool ''calculator'' False], config_acceptAll = None \<rparr> 0 =
     (agentOf [acceptingTool ''calculator'' False] (toolThenDone [call ''t1'' ''calculator'']),
      startState) \<and>
   answersWhatWasAsked (toolThenDone [call ''t1'' ''calculator'']) \<and>
   declinesRequested
     (agentOf [acceptingTool ''calculator'' False] (toolThenDone [call ''t1'' ''calculator'']))
     [Run 3 ''do it'', Confirm 2 ''t1'' False] startState \<and>
   (\<exists>st. afterCalls
       (agentOf [acceptingTool ''calculator'' False] (toolThenDone [call ''t1'' ''calculator'']))
       [Run 3 ''do it'', Confirm 2 ''t1'' False] startState = Some st \<and>
     kinds st =
       [(SYSTEM, None), (USER, None), (TOOL_REQUEST, Some ''t1''), (TOOL_RESULT, Some ''t1''),
        (ASSISTANT, None), (TOOL_RESULT, Some ''t1''), (USER, None), (ASSISTANT, None)] \<and>
     resultsHaveRequests (agent_messages st))"
proof -
  let ?agent = "agentOf [acceptingTool ''calculator'' False]
      (toolThenDone [call ''t1'' ''calculator''])"
  let ?calls = "[Run 3 ''do it'', Confirm 2 ''t1'' False]"
  have created: "createAgent (\<lambda>cb. quietHandler)
     \<lparr> config_system = ''You are helpful'', config_messages = None,
       config_llm = toolThenDone [call ''t1'' ''calculator''],
       config_tools = Some [acceptingTool ''calculator'' False], config_acceptAll = None \<rparr> 0 =
     (?agent, startState)"
    by (simp add: createAgent_def agentOf_def startState_def toolThenDone_def)
  have faithful: "answersWhatWasAsked (toolThenDone [call ''t1'' ''calculator''])"
    by (auto simp: answersWhatWasAsked_def toolThenDone_def list_all_iff)
  then have faithful': "answersWhatWasAsked (llm ?agent)"
    by (simp add: agentOf_def)
  have proper: "declinesRequested ?agent ?calls startState"
    by (simp add: agent_eval example_eval eval_nat_numeral hasRequest_def shutdown_def
        cong: await_weak_cong tryCatch_weak_cong)
  have "\<exists>st. afterCalls ?agent ?calls startState = Some st \<and>
     kinds st =
       [(SYSTEM, None), (USER, None), (TOOL_REQUEST, Some ''t1''), (TOOL_RESULT, Some ''t1''),
        (ASSISTANT, None), (TOOL_RESULT, Some ''t1''), (USER, None), (ASSISTANT, None)]"
    by (simp add: agent_eval example_eval eval_nat_numeral
        cong: await_weak_cong tryCatch_weak_cong)
  then obtain st where settled: "afterCalls ?agent ?calls startState = Some st"
    and log: "kinds st =
       [(SYSTEM, None), (USER, None), (TOOL_REQUEST, Some ''t1''), (TOOL_RESULT, Some ''t1''),
        (ASSISTANT, None), (TOOL_RESULT, Some ''t1''), (USER, None), (ASSISTANT, None)]"
    by (elim exE conjE)
  note backed = tool_results_have_requests [OF created faithful' proper settled]
  show ?thesis
  proof (intro conjI exI)
    show "createAgent (\<lambda>cb. quietHandler)
       \<lparr> config_system = ''You are helpful'', config_messages = None,
         config_llm = toolThenDone [call ''t1'' ''calculator''],
         config_tools = Some [acceptingTool ''calculator'' False], config_acceptAll = None \<rparr> 0 =
       (?agent, startState)"
      by (rule created)
    show "answersWhatWasAsked (toolThenDone [call ''t1'' ''calculator''])" by (rule faithful)
    show "declinesRequested ?agent ?calls startState" by (rule proper)
    show "afterCalls ?agent ?calls startState = Some st" by (rule settled)
    show "kinds st =
       [(SYSTEM, None), (USER, None), (TOOL_REQUEST, Some ''t1''), (TOOL_RESULT, Some ''t1''),
        (ASSISTANT, None), (TOOL_RESULT, Some ''t1''), (USER, None), (ASSISTANT, None)]"
      by (rule log)
    show "resultsHaveRequests (agent_messages st)" by (rule backed)
  qed
qed

text \<open>
  Claim C2 as stated fails, in both parts. Declining a tool use \<open>x\<close> that was never
  requested leaves a tool-result message for \<open>x\<close> with no request before it. And after a
  \<open>run\<close> in which the tool use \<open>t1\<close> was requested and executed, declining \<open>t1\<close> leaves a
  second tool-result message for \<open>t1\<close>.
\<close>

theorem tool_results_counterexample:
  "(\<exists>st. afterCalls (agentOf [] alwaysDone) [Confirm 2 ''x'' False] startState = Some st \<and>
      kinds st =
        [(SYSTEM, None), (TOOL_RESULT, Some ''x''), (USER, None), (ASSISTANT, None)] \<and>
      \<not> resultsHaveRequests (agent_messages st)) \<and>
   (\<exists>st. afterCalls
        (agentOf [acceptingTool ''calculator'' False] (toolThenDone [call ''t1'' ''calculator'']))
        [Run 3 ''do it'', Confirm 2 ''t1'' False] startState = Some st \<and>
      kinds st =
        [(SYSTEM, None), (USER, None), (TOOL_REQUEST, Some ''t1''), (TOOL_RESULT, Some ''t1''),
         (ASSISTANT, None), (TOOL_RESULT, Some ''t1''), (USER, None), (ASSISTANT, None)] \<and>
      \<not> oneResultPerToolUse (agent_messages st))"
proof -
  have unknown: "\<not> hasRequest (Some ''x'') (agent_messages startState)"
    by (simp add: hasRequest_def agent_messages_def startState_def initialize_def)
  have "\<exists>st. handleToolConfirmation 2 ''x'' False (agentOf [] alwaysDone) startState =
        Some (Inr (), st) \<and>
      kinds st =
        [(SYSTEM, None), (TOOL_RESULT, Some ''x''), (USER, None), (ASSISTANT, None)]"
    by (simp add: agent_eval example_eval eval_nat_numeral
        cong: await_weak_cong tryCatch_weak_cong)
  then obtain st where
    declined: "handleToolConfirmation 2 ''x'' False (agentOf [] alwaysDone) startState =
        Some (Inr (), st)"
    and log: "kinds st =
        [(SYSTEM, None), (TOOL_RESULT, Some ''x''), (USER, None), (ASSISTANT, None)]"
    by (elim exE conjE)
  from declined have settled:
    "afterCalls (agentOf [] alwaysDone) [Confirm 2 ''x'' False] startState = Some st"
    by simp
  note orphan = declined_unknown_orphan [OF unknown declined]
  have first: "\<exists>st. afterCalls (agentOf [] alwaysDone) [Confirm 2 ''x'' False] startState =
        Some st \<and>
      kinds st =
        [(SYSTEM, None), (TOOL_RESULT, Some ''x''), (USER, None), (ASSISTANT, None)] \<and>
      \<not> resultsHaveRequests (agent_messages st)"
    using settled log orphan by (intro exI conjI)
  have "\<exists>st. afterCalls
        (agentOf [acceptingTool ''calculator'' False] (toolThenDone [call ''t1'' ''calculator'']))
        [Run 3 ''do it'', Confirm 2 ''t1'' False] startState = Some st \<and>
      kinds st =
        [(SYSTEM, None), (USER, None), (TOOL_REQUEST, Some ''t1''), (TOOL_RESULT, Some ''t1''),
         (ASSISTANT, None), (TOOL_RESULT, Some ''t1''), (USER, None), (ASSISTANT, None)]"
    by (simp add: agent_eval example_eval eval_nat_numeral
        cong: await_weak_cong tryCatch_weak_cong)
  then obtain st2 where settled2: "afterCalls
        (agentOf [acceptingTool ''calculator'' False] (toolThenDone [call ''t1'' ''calculator'']))
        [Run 3 ''do it'', Confirm 2 ''t1'' False] startState = Some st2"
    and log2: "kinds st2 =
        [(SYSTEM, None), (USER, None), (TOOL_REQUEST, Some ''t1''), (TOOL_RESULT, Some ''t1''),
         (ASSISTANT, None), (TOOL_RESULT, Some ''t1''), (USER, None), (ASSISTANT, None)]"
    by (elim exE conjE)
  have twice: "\<not> oneResultPerToolUse (agent_messages st2)"
    unfolding oneResultPerToolUse_kinds log2 by simp
  have second: "\<exists>st. afterCalls
        (agentOf [acceptingTool ''calculator'' False] (toolThenDone [call ''t1'' ''calculator'']))
        [Run 3 ''do it'', Confirm 2 ''t1'' False] startState = Some st \<and>
      kinds st =
        [(SYSTEM, None), (USER, None), (TOOL_REQUEST, Some ''t1''), (TOOL_RESULT, Some ''t1''),
         (ASSISTANT, None), (TOOL_RESULT, Some ''t1''), (USER, None), (ASSISTANT, None)] \<and>
      \<not> oneResultPerToolUse (agent_messages st)"
    using settled2 log2 twice by (intro exI conjI)
  from first second show ?thesis by (rule conjI)
qed

end
